theory Spec2Isabelle
  imports Main "HOL-Library.Word"
begin

unbundle bit_operations_syntax

section \<open>The authorization store in EEPROM\<close>

text \<open>
  The sketch keeps the authorized tags in the EEPROM of the controller, which it reads
  with \<^verbatim>\<open>EEPROM.read(addr)\<close> and writes with \<^verbatim>\<open>EEPROM.write(addr, value)\<close>.
  The EEPROM is modelled as a function from byte addresses to bytes; a write is a
  function update. Addresses are \<open>unsigned int\<close> (16 bits) in the source; the loops
  below never leave \<open>0 .. 1019\<close>, so they are natural numbers here.

  \<^verbatim>\<open>unsigned int eepLength = 1024;\<close>
\<close>

type_synonym eeprom = "nat \<Rightarrow> 8 word"

definition eepLength :: nat where
  "eepLength = 1024"

text \<open>Values of the \<open>entryStatus\<close> byte, and return values of \<open>checkAuthTag\<close>.\<close>

definition statusEmpty :: int where "statusEmpty = 0"
definition statusAuthorized :: int where "statusAuthorized = 1"
definition statusAdmin :: int where "statusAdmin = 2"

text \<open>
  The inner loop of \<open>checkAuthTag\<close> reads the four bytes of an entry's id, most
  significant byte first:
  \<^verbatim>\<open>entryId = 0; for( i=0; i<4; i++ ) { entryId <<= 8; entryId += EEPROM.read( eepAddr + i ); }\<close>
\<close>

definition readEntryId :: "eeprom \<Rightarrow> nat \<Rightarrow> 32 word" where
  "readEntryId ee eepAddr =
     foldl (\<lambda>entryId i. push_bit 8 entryId + ucast (ee (eepAddr + i))) 0 [0 ..< 4]"

text \<open>
  \<open>checkAuthTag\<close>: the loop \<^verbatim>\<open>for( eepAddr=0; eepAddr<eepLength-5; eepAddr+=5 )\<close> visits
  every entry and never leaves early; each entry whose id equals \<open>fobId\<close> overwrites
  \<open>entryStatus\<close> with its status byte. \<open>entryStatus\<close> is an \<open>unsigned char\<close> that starts
  at 0, and the function returns it as an \<open>int\<close>.
\<close>

function checkAuthTag_loop :: "eeprom \<Rightarrow> 32 word \<Rightarrow> nat \<Rightarrow> 8 word \<Rightarrow> 8 word" where
  "checkAuthTag_loop ee fobId eepAddr entryStatus =
     (if eepAddr < eepLength - 5
      then checkAuthTag_loop ee fobId (eepAddr + 5)
             (if readEntryId ee eepAddr = fobId then ee (eepAddr + 4) else entryStatus)
      else entryStatus)"
  by pat_completeness auto
termination
  by (relation "measure (\<lambda>(ee, fobId, eepAddr, entryStatus). eepLength - 5 - eepAddr)") auto

declare checkAuthTag_loop.simps [simp del]

definition checkAuthTag :: "eeprom \<Rightarrow> 32 word \<Rightarrow> int" where
  "checkAuthTag ee fobId = uint (checkAuthTag_loop ee fobId 0 0)"

text \<open>
  \<open>addAuthTag\<close>: the first entry whose status byte is \<open>statusEmpty\<close> or \<open>0xFF\<close> (the
  value of erased EEPROM) receives the four id bytes and the status \<open>statusAuthorized\<close>;
  the function returns that status, or 0 when the loop ends without such an entry.
  \<^verbatim>\<open>EEPROM.write( eepAddr, (fobId>>24)&0xFF ); ... EEPROM.write( eepAddr+3, fobId&0xFF );\<close>
\<close>

definition writeEntry :: "eeprom \<Rightarrow> nat \<Rightarrow> 32 word \<Rightarrow> eeprom" where
  "writeEntry ee eepAddr fobId =
     ee(eepAddr := ucast (drop_bit 24 fobId AND 0xFF),
        eepAddr + 1 := ucast (drop_bit 16 fobId AND 0xFF),
        eepAddr + 2 := ucast (drop_bit 8 fobId AND 0xFF),
        eepAddr + 3 := ucast (fobId AND 0xFF),
        eepAddr + 4 := word_of_int statusAuthorized)"

function addAuthTag_loop :: "eeprom \<Rightarrow> 32 word \<Rightarrow> nat \<Rightarrow> eeprom \<times> int" where
  "addAuthTag_loop ee fobId eepAddr =
     (if eepAddr < eepLength - 5
      then (let entryStatus = ee (eepAddr + 4) in
            if uint entryStatus = statusEmpty \<or> entryStatus = 0xFF
            then (writeEntry ee eepAddr fobId, statusAuthorized)
            else addAuthTag_loop ee fobId (eepAddr + 5))
      else (ee, 0))"
  by pat_completeness auto
termination
  by (relation "measure (\<lambda>(ee, fobId, eepAddr). eepLength - 5 - eepAddr)") auto

declare addAuthTag_loop.simps [simp del]

definition addAuthTag :: "eeprom \<Rightarrow> 32 word \<Rightarrow> eeprom \<times> int" where
  "addAuthTag ee fobId = addAuthTag_loop ee fobId 0"

text \<open>
  \<open>clearAuthTags\<close>:
  \<^verbatim>\<open>for( eepAddr=0; eepAddr<eepLength-5; eepAddr+=5 ) EEPROM.write( eepAddr+4, statusEmpty );\<close>
\<close>

function clearAuthTags_loop :: "eeprom \<Rightarrow> nat \<Rightarrow> eeprom" where
  "clearAuthTags_loop ee eepAddr =
     (if eepAddr < eepLength - 5
      then clearAuthTags_loop (ee(eepAddr + 4 := word_of_int statusEmpty)) (eepAddr + 5)
      else ee)"
  by pat_completeness auto
termination
  by (relation "measure (\<lambda>(ee, eepAddr). eepLength - 5 - eepAddr)") auto

declare clearAuthTags_loop.simps [simp del]

definition clearAuthTags :: "eeprom \<Rightarrow> eeprom" where
  "clearAuthTags ee = clearAuthTags_loop ee 0"

text \<open>
  The three loops step \<open>eepAddr\<close> by 5 from 0 while \<open>eepAddr < eepLength - 5 = 1019\<close>:
  they visit the 204 entries (slots) at the addresses \<open>0, 5, ..., 1015\<close>. Slot \<open>k\<close> has its id
  in the bytes \<open>5k .. 5k+3\<close> and its status in the byte \<open>5k+4\<close>.
\<close>

definition numSlots :: nat where
  "numSlots = 204"

definition slotId :: "eeprom \<Rightarrow> nat \<Rightarrow> 32 word" where
  "slotId ee k = readEntryId ee (5 * k)"

definition slotStatus :: "eeprom \<Rightarrow> nat \<Rightarrow> 8 word" where
  "slotStatus ee k = ee (5 * k + 4)"

text \<open>The test of \<open>addAuthTag\<close> for an entry it may write.\<close>

definition slotFree :: "eeprom \<Rightarrow> nat \<Rightarrow> bool" where
  "slotFree ee k = (slotStatus ee k = 0 \<or> slotStatus ee k = 0xFF)"

text \<open>An EEPROM that was never written: every byte reads \<open>0xFF\<close>.\<close>

definition freshEeprom :: eeprom where
  "freshEeprom = (\<lambda>addr. 0xFF)"

section \<open>The admin tag list\<close>

text \<open>
  \<^verbatim>\<open>const unsigned long adminTagsList[] PROGMEM = { 0xb0009afb7f, 0 };\<close>
  An \<open>unsigned long\<close> has 32 bits on this controller, so the first entry is stored as
  \<open>0x009afb7f\<close> (a numeral of type \<open>32 word\<close> is read modulo \<open>2 ^ 32\<close> as well). The
  entry 0 ends the list.
\<close>

definition adminTagsList :: "32 word list" where
  "adminTagsList = [0xb0009afb7f, 0]"

text \<open>
  \<open>checkAdminTag\<close>:
  \<^verbatim>\<open>for( i=0; adminTagsList[i] != 0; i++ ) { if( fobId == adminTagsList[i] ) return statusAdmin; } return 0;\<close>
  The list ends with 0, so the loop never reads behind it and the equation for the empty
  list is never used.
\<close>

fun checkAdminTag_loop :: "32 word list \<Rightarrow> 32 word \<Rightarrow> int" where
  "checkAdminTag_loop [] fobId = 0"
| "checkAdminTag_loop (tag # tags) fobId =
     (if tag \<noteq> 0
      then (if fobId = tag then statusAdmin else checkAdminTag_loop tags fobId)
      else 0)"

definition checkAdminTag :: "32 word \<Rightarrow> int" where
  "checkAdminTag fobId = checkAdminTag_loop adminTagsList fobId"

section \<open>Settings and hardware configuration\<close>

definition startupTimeout :: "32 word" where "startupTimeout = 10000"
definition deniedTimeout :: "32 word" where "deniedTimeout = 3000"
definition addTagTimeout :: "32 word" where "addTagTimeout = 5000"
definition runningStopTimeout :: "32 word" where "runningStopTimeout = 3000"

definition SHORTBUZZ :: int where "SHORTBUZZ = 150"
definition LONGBUZZ :: int where "LONGBUZZ = 500"
definition GOODBUZZTONE :: int where "GOODBUZZTONE = 2000"
definition BADBUZZTONE :: int where "BADBUZZTONE = 1000"

definition keepRunningOnPowerup :: int where "keepRunningOnPowerup = 0"

text \<open>Pin levels are booleans: \<open>True\<close> is 1 (+5V), \<open>False\<close> is 0.\<close>

definition ADMINDOWN :: bool where "ADMINDOWN = False"
definition RELAYON :: bool where "RELAYON = True"
definition RELAYOFF :: bool where "RELAYOFF = False"
definition RUNON :: bool where "RUNON = True"

section \<open>The state of the sketch\<close>

text \<open>The possible values of \<open>systemStatus\<close> (\<open>const int\<close> in the source).\<close>

datatype status =
    STATUSUNK
  | STATUSOFF
  | STATUSON
  | STATUSTURNON
  | STATUSDENIED
  | STATUSADD
  | STATUSADDED
  | STATUSDEL
  | STATUSTURNOFF

text \<open>
  What the sketch sends out, in order: a line on the serial port to the PC
  (event name, fob id, seconds; the free text after them is left out), a call of
  \<open>tone(buzzerPin, frequency, duration)\<close>, a call of \<open>delay(ms)\<close>.
\<close>

datatype effect =
    SerialLog string "32 word" "32 word"
  | Tone int int
  | Delay int

text \<open>
  The global variables, the EEPROM, the levels last written to the three output pins
  (the fields \<open>ledGreenPin\<close>, \<open>ledRedPin\<close> and \<open>relayPin\<close> hold the level of the pin of
  that name), and the effects so far, oldest first.
\<close>

record state =
  systemStatus :: status
  bootAdminMode :: bool
  fobPresentMilli :: "32 word"
  runTimeMilli :: "32 word"
  runningGraceMilli :: "32 word"
  activeFobId :: "32 word"
  eeprom :: eeprom
  ledGreenPin :: bool
  ledRedPin :: bool
  relayPin :: bool
  effects :: "effect list"

text \<open>
  What a call of \<open>rfidSerial\<close> delivers to one run of \<open>loop()\<close>. \<open>NoData\<close>:
  \<open>rfidSerial.available()\<close> is 0. \<open>NotStart\<close>: the byte read is not \<open>0x02\<close>.
  \<open>Start vals\<close>: the byte read is \<open>0x02\<close>, and \<open>vals\<close> are the values that the successive
  calls \<^verbatim>\<open>rfidSerial.readBytesUntil( 0x03, input, 2 ); val = strtol(input, 0, 0x10);\<close>
  return for as long as \<open>rfidSerial.available() > 0\<close> holds. These are calls into the
  Arduino and C libraries; \<open>val\<close> is an \<open>int\<close> of 16 bits.
\<close>

datatype rx = NoData | NotStart | Start "16 word list"

text \<open>
  The inputs of one run of \<open>setup()\<close> or \<open>loop()\<close>: the value of \<open>millis()\<close>, the levels
  read from the three input pins, and the serial data from the reader. Each input is
  sampled once for the run.
\<close>

record inputs =
  millis :: "32 word"
  runningPin :: bool
  runningPinInv :: bool
  adminButtonPin :: bool
  rfidSerial :: rx

text \<open>\<^verbatim>\<open>(digitalRead(runningPin) == RUNON || digitalRead(runningPinInv) == !RUNON)\<close>\<close>

definition machineRunning :: "inputs \<Rightarrow> bool" where
  "machineRunning inp = (runningPin inp = RUNON \<or> runningPinInv inp = (\<not> RUNON))"

text \<open>
  The timeout tests of \<open>loop()\<close> all have the form
  \<^verbatim>\<open>millis() > marker + timeout\<close> on \<open>unsigned long\<close> values: the sum wraps around at
  \<open>2 ^ 32\<close>, as \<open>+\<close> on \<open>32 word\<close> does.
\<close>

definition timedOut :: "inputs \<Rightarrow> 32 word \<Rightarrow> 32 word \<Rightarrow> bool" where
  "timedOut inp marker timeout = (millis inp > marker + timeout)"

definition say :: "effect list \<Rightarrow> state \<Rightarrow> state" where
  "say es st = st\<lparr>effects := effects st @ es\<rparr>"

definition setLeds :: "bool \<Rightarrow> bool \<Rightarrow> state \<Rightarrow> state" where
  "setLeds green red st = st\<lparr>ledGreenPin := green, ledRedPin := red\<rparr>"

section \<open>Startup\<close>

text \<open>
  The globals before \<open>setup()\<close> runs: \<open>systemStatus = STATUSUNK\<close>, \<open>bootAdminMode = 0\<close>,
  the others zero as C initialises them; the EEPROM is what the last run left.
\<close>

definition powerOn :: "eeprom \<Rightarrow> state" where
  "powerOn ee =
     \<lparr>systemStatus = STATUSUNK, bootAdminMode = False, fobPresentMilli = 0,
      runTimeMilli = 0, runningGraceMilli = 0, activeFobId = 0, eeprom = ee,
      ledGreenPin = False, ledRedPin = False, relayPin = False, effects = []\<rparr>"

text \<open>\<open>setup()\<close>; the name has a suffix because \<open>setup\<close> is a keyword of Isabelle.\<close>

definition setup_fn :: "inputs \<Rightarrow> state \<Rightarrow> state" where
  "setup_fn inp st0 =
     (let st1 =
        (if keepRunningOnPowerup \<noteq> 0 \<and> machineRunning inp
         then say [SerialLog ''bootrun'' 0 0]
                (setLeds True False (st0\<lparr>systemStatus := STATUSON, relayPin := RELAYON\<rparr>))
                \<lparr>runTimeMilli := millis inp\<rparr>
         else say [SerialLog ''boot'' 0 0]
                (setLeds False False (st0\<lparr>systemStatus := STATUSOFF, relayPin := RELAYOFF\<rparr>)));
          st2 =
        (if adminButtonPin inp = ADMINDOWN
         then say [SerialLog ''bootadmin'' 0 0]
                (setLeds False False
                  (st1\<lparr>bootAdminMode := True, systemStatus := STATUSOFF, relayPin := RELAYOFF\<rparr>))
         else st1\<lparr>bootAdminMode := False\<rparr>)
      in if systemStatus st2 = STATUSOFF \<and> \<not> bootAdminMode st2
         then setLeds False False (say [Delay 150, Delay 150, Delay 150] st2)
         else st2)"

section \<open>The first half of \<open>loop()\<close>: sensor and timer rules\<close>

text \<open>
  One chain of \<open>if ... else if ...\<close>: the first test that holds decides, and at most
  one branch runs. The quotient printed in the log lines is
  \<^verbatim>\<open>(millis() - runTimeMilli) / 1000\<close> on \<open>unsigned long\<close>.
\<close>

definition loop_timers :: "inputs \<Rightarrow> state \<Rightarrow> state" where
  "loop_timers inp st =
     (if systemStatus st = STATUSTURNON \<and> machineRunning inp
      then (say [SerialLog ''start'' (activeFobId st) 0] (st\<lparr>systemStatus := STATUSON\<rparr>))
             \<lparr>runTimeMilli := millis inp\<rparr>
      else if systemStatus st = STATUSON \<and> \<not> machineRunning inp
      then say [SerialLog ''stop'' (activeFobId st) ((millis inp - runTimeMilli st) div 1000)]
             (st\<lparr>systemStatus := STATUSTURNOFF, runningGraceMilli := millis inp\<rparr>)
      else if systemStatus st = STATUSTURNOFF \<and> machineRunning inp
      then say [SerialLog ''restart'' (activeFobId st) ((millis inp - runTimeMilli st) div 1000)]
             (st\<lparr>systemStatus := STATUSON\<rparr>)
      else if systemStatus st = STATUSTURNOFF \<and> timedOut inp (runningGraceMilli st) runningStopTimeout
      then say [SerialLog ''logout'' (activeFobId st) ((millis inp - runTimeMilli st) div 1000),
                Tone BADBUZZTONE LONGBUZZ]
             ((setLeds False False (st\<lparr>systemStatus := STATUSOFF\<rparr>))\<lparr>relayPin := RELAYOFF\<rparr>)
      else if systemStatus st = STATUSTURNON \<and> timedOut inp (fobPresentMilli st) startupTimeout
      then say [SerialLog ''timeout'' (activeFobId st) 0, Tone BADBUZZTONE LONGBUZZ]
             ((setLeds False False (st\<lparr>systemStatus := STATUSOFF\<rparr>))\<lparr>relayPin := RELAYOFF\<rparr>)
      else if systemStatus st = STATUSDENIED \<and> timedOut inp (fobPresentMilli st) deniedTimeout
      then setLeds False False (st\<lparr>systemStatus := STATUSOFF\<rparr>)
      else if systemStatus st = STATUSADD \<and> timedOut inp (fobPresentMilli st) addTagTimeout
      then setLeds False False (st\<lparr>systemStatus := STATUSOFF\<rparr>)
      else if systemStatus st = STATUSADD \<and> adminButtonPin inp \<noteq> ADMINDOWN
      then setLeds False False (st\<lparr>systemStatus := STATUSOFF\<rparr>)
      else if systemStatus st = STATUSADD
      then (if ((millis inp - fobPresentMilli st) div 500) mod 2 \<noteq> 0
            then setLeds False False st
            else setLeds True False st)
      else if systemStatus st = STATUSADDED \<and> timedOut inp (fobPresentMilli st) deniedTimeout
      then setLeds False False (st\<lparr>systemStatus := STATUSOFF\<rparr>)
      else if systemStatus st = STATUSDEL \<and> timedOut inp (fobPresentMilli st) deniedTimeout
      then setLeds False False (st\<lparr>systemStatus := STATUSOFF\<rparr>)
      else if systemStatus st = STATUSDEL
      then (if ((millis inp - fobPresentMilli st) div 500) mod 2 \<noteq> 0
            then setLeds False False st
            else setLeds False True st)
      else if bootAdminMode st \<and> adminButtonPin inp \<noteq> ADMINDOWN
      then setLeds False False (st\<lparr>bootAdminMode := False\<rparr>)
      else if bootAdminMode st
      then (if (millis inp div 500) mod 2 \<noteq> 0
            then setLeds True False st
            else setLeds False True st)
      else st)"

section \<open>The second half of \<open>loop()\<close>: the frame from the reader\<close>

text \<open>
  The bits 0..7 of \<open>val\<close> in reverse order:
  \<^verbatim>\<open>fobIdPacket[ idPacketLen ] = 0;
  for( i=0; i<8; i++ ) { if( val & (1<<i) ) fobIdPacket[ idPacketLen ] |= (1<<7-i); }\<close>
  (\<open>1<<7-i\<close> is \<open>1<<(7-i)\<close> in C).
\<close>

definition reverseBits :: "16 word \<Rightarrow> 16 word" where
  "reverseBits val =
     foldl (\<lambda>b i. if val AND push_bit i 1 \<noteq> 0 then b OR push_bit (7 - i) 1 else b) 0 [0 ..< 8]"

text \<open>
  \<^verbatim>\<open>while( rfidSerial.available() > 0 && idPacketLen < 6) { ... idPacketLen++; }\<close>
  \<open>fobIdPacket\<close> is the list of the entries written so far, \<open>idPacketLen\<close> its length.
\<close>

fun readPacket :: "16 word list \<Rightarrow> 16 word list \<Rightarrow> 16 word list" where
  "readPacket [] fobIdPacket = fobIdPacket"
| "readPacket (val # vals) fobIdPacket =
     (if length fobIdPacket < 6
      then readPacket vals (fobIdPacket @ [reverseBits val])
      else fobIdPacket)"

text \<open>\<^verbatim>\<open>val = 0; for( i=0; i<6; i++ ) val ^= fobIdPacket[i];\<close>\<close>

definition packetChecksum :: "16 word list \<Rightarrow> 16 word" where
  "packetChecksum fobIdPacket = foldl (\<lambda>val i. val XOR fobIdPacket ! i) 0 [0 ..< 6]"

text \<open>
  \<^verbatim>\<open>for( i=1; i<6; i++ ) { if( fobIdPacket[i] != fobIdPacket[0] ) break; }\<close>
  The function returns the value of \<open>i\<close> after the loop.
\<close>

function firstDifferent :: "16 word list \<Rightarrow> nat \<Rightarrow> nat" where
  "firstDifferent fobIdPacket i =
     (if i < 6
      then (if fobIdPacket ! i \<noteq> fobIdPacket ! 0 then i
            else firstDifferent fobIdPacket (i + 1))
      else i)"
  by pat_completeness auto
termination
  by (relation "measure (\<lambda>(fobIdPacket, i). 6 - i)") auto

declare firstDifferent.simps [simp del]

text \<open>
  \<^verbatim>\<open>fobId = 0; for( i=0; i<4; i++ ) fobId = (fobId<<8) + fobIdPacket[1+i];\<close>
  The \<open>int\<close> entry is converted to \<open>unsigned long\<close>, which keeps its sign (\<open>scast\<close>).
\<close>

definition packetFobId :: "16 word list \<Rightarrow> 32 word" where
  "packetFobId fobIdPacket =
     foldl (\<lambda>fobId i. push_bit 8 fobId + scast (fobIdPacket ! (1 + i))) 0 [0 ..< 4]"

text \<open>
  The three \<open>return\<close> statements that throw a packet away (its length is not 6, the
  checksum is not 0, all bytes are the same) give \<open>None\<close>.
\<close>

definition decodePacket :: "16 word list \<Rightarrow> 32 word option" where
  "decodePacket fobIdPacket =
     (if length fobIdPacket \<noteq> 6 then None
      else if packetChecksum fobIdPacket \<noteq> 0 then None
      else if firstDifferent fobIdPacket 1 \<ge> 6 then None
      else Some (packetFobId fobIdPacket))"

text \<open>
  What \<open>loop()\<close> does with a valid \<open>fobId\<close>, from
  \<^verbatim>\<open>fobPresentMilli = millis();\<close> to the end of the function.
\<close>

definition presentFob :: "inputs \<Rightarrow> 32 word \<Rightarrow> state \<Rightarrow> state" where
  "presentFob inp fobId st0 =
     (let st = st0\<lparr>fobPresentMilli := millis inp\<rparr> in
      if adminButtonPin inp = ADMINDOWN \<and> systemStatus st \<noteq> STATUSON
           \<and> systemStatus st \<noteq> STATUSTURNON
      then
        (if checkAdminTag fobId = statusAdmin
         then
           (if bootAdminMode st
            then
              (if systemStatus st \<noteq> STATUSDEL \<or> activeFobId st \<noteq> fobId
               then say [SerialLog ''deleted'' fobId 0,
                         Tone GOODBUZZTONE SHORTBUZZ, Delay SHORTBUZZ,
                         Tone GOODBUZZTONE SHORTBUZZ, Delay SHORTBUZZ,
                         Tone GOODBUZZTONE SHORTBUZZ]
                      ((setLeds False True st)
                         \<lparr>eeprom := clearAuthTags (eeprom st), systemStatus := STATUSDEL\<rparr>)
               else st)
              \<lparr>activeFobId := fobId, fobPresentMilli := millis inp\<rparr>
            else
              (if systemStatus st \<noteq> STATUSADD \<or> activeFobId st \<noteq> fobId
               then say [Tone GOODBUZZTONE SHORTBUZZ]
                      (setLeds True False
                        (say [SerialLog ''admin'' fobId 0] (st\<lparr>systemStatus := STATUSADD\<rparr>)))
               else st)
              \<lparr>activeFobId := fobId\<rparr>)
         else if systemStatus st = STATUSADD \<and> checkAuthTag (eeprom st) fobId = 0
         then
           (let (ee, added) = addAuthTag (eeprom st) fobId in
            say [SerialLog ''added'' fobId 0,
                 Tone GOODBUZZTONE SHORTBUZZ, Delay SHORTBUZZ, Tone GOODBUZZTONE SHORTBUZZ]
              (st\<lparr>eeprom := ee,
                  systemStatus := (if added \<noteq> 0 then STATUSADDED else STATUSDEL)\<rparr>))
         else st)
      else
        (if checkAuthTag (eeprom st) fobId \<noteq> 0 \<or> checkAdminTag fobId \<noteq> 0
         then
           (let st1 = (setLeds True False st)\<lparr>relayPin := RELAYON\<rparr> in
            if systemStatus st1 \<noteq> STATUSON
            then
              (if systemStatus st1 \<noteq> STATUSTURNON
               then (say [Tone GOODBUZZTONE SHORTBUZZ, SerialLog ''login'' fobId 0] st1)
                      \<lparr>activeFobId := fobId\<rparr>
               else st1)
              \<lparr>systemStatus := STATUSTURNON\<rparr>
            else st1)
         else if systemStatus st = STATUSOFF \<or> systemStatus st = STATUSTURNON
         then
           (let st1 = setLeds False True st in
            if systemStatus st1 \<noteq> STATUSDENIED \<or> activeFobId st1 \<noteq> fobId
            then say [Tone BADBUZZTONE LONGBUZZ, SerialLog ''denied'' fobId 0]
                   (st1\<lparr>relayPin := RELAYOFF, systemStatus := STATUSDENIED\<rparr>)
            else st1)
         else st))"

text \<open>
  From \<^verbatim>\<open>if (rfidSerial.available() > 0)\<close> on. Each \<open>return\<close> before the fob id is
  complete leaves the state as the first half of \<open>loop()\<close> left it.
\<close>

definition loop_rfid :: "inputs \<Rightarrow> state \<Rightarrow> state" where
  "loop_rfid inp st =
     (case rfidSerial inp of
        NoData \<Rightarrow> st
      | NotStart \<Rightarrow> st
      | Start vals \<Rightarrow>
          (case decodePacket (readPacket vals []) of
             None \<Rightarrow> st
           | Some fobId \<Rightarrow> presentFob inp fobId st))"

definition loop :: "inputs \<Rightarrow> state \<Rightarrow> state" where
  "loop inp st = loop_rfid inp (loop_timers inp st)"

text \<open>\<open>setup()\<close> once, then \<open>loop()\<close> for each element of a list of inputs.\<close>

definition run :: "eeprom \<Rightarrow> inputs \<Rightarrow> inputs list \<Rightarrow> state" where
  "run ee boot inps = foldl (\<lambda>st inp. loop inp st) (setup_fn boot (powerOn ee)) inps"

section \<open>Stores and inputs used in the examples\<close>

text \<open>
  \<open>fullEeprom\<close>: every byte is 1, so each of the 204 slots holds the tag \<open>0x01010101\<close>
  with the status \<open>statusAuthorized\<close>.
  \<open>idle\<close>: the machine is not running, the admin button is released, the reader sends
  nothing. \<open>adminFrame\<close>: the message of the comment in \<open>loop()\<close>,
  \<^verbatim>\<open>02 30 44 30 30 35 39 44 46 46 45 37 35 03\<close>, the characters \<open>0D 00 59 DF FE 75\<close>;
  it is the message of the admin tag. \<open>enrolledTwo\<close> and \<open>enrolledThree\<close>: the store
  after the tags \<open>0x11111111\<close> and \<open>0x22222222\<close> (and then \<open>0x33333333\<close>) were added to an
  EEPROM that was never written.
\<close>

definition enrolledTwo :: eeprom where
  "enrolledTwo = fst (addAuthTag (fst (addAuthTag freshEeprom 0x11111111)) 0x22222222)"

definition enrolledThree :: eeprom where
  "enrolledThree =
     fst (addAuthTag (fst (addAuthTag (fst (addAuthTag freshEeprom 0x11111111)) 0x22222222))
            0x33333333)"

definition idle :: inputs where
  "idle = \<lparr>millis = 0, runningPin = False, runningPinInv = True, adminButtonPin = True,
           rfidSerial = NoData\<rparr>"

definition adminFrame :: rx where
  "adminFrame = Start [0x0D, 0x00, 0x59, 0xDF, 0xFE, 0x75]"

definition fullEeprom :: eeprom where
  "fullEeprom = (\<lambda>addr. 1)"

text \<open>
  \<open>blankLeds\<close>: the state with the two LED pins and the time of the last tag blanked
  out. Two states with the same image differ in these three fields at most.
\<close>

definition blankLeds :: "state \<Rightarrow> state" where
  "blankLeds st = st\<lparr>ledGreenPin := False, ledRedPin := False, fobPresentMilli := 0\<rparr>"

section \<open>Properties of the authorization store\<close>

subsection \<open>\<open>clearAuthTags\<close>, byte by byte\<close>

lemma clearAuthTags_loop_apply:
  "clearAuthTags_loop ee a x =
     (if a + 4 \<le> x \<and> (x - (a + 4)) mod 5 = 0 \<and> x < 1023 then 0 else ee x)"
proof (induction ee a rule: clearAuthTags_loop.induct)
  case (1 ee a)
  let ?ee' = "ee(a + 4 := word_of_int statusEmpty)"
  show ?case
  proof (cases "a < eepLength - 5")
    case True
    then have a: "a < 1019" by (simp add: eepLength_def)
    have "clearAuthTags_loop ee a x = clearAuthTags_loop ?ee' (a + 5) x"
      using True by (subst clearAuthTags_loop.simps) simp
    also have "\<dots> = (if a + 5 + 4 \<le> x \<and> (x - (a + 5 + 4)) mod 5 = 0 \<and> x < 1023 then 0
        else ?ee' x)"
      by (rule "1.IH" [OF True])
    also have "\<dots> = (if a + 4 \<le> x \<and> (x - (a + 4)) mod 5 = 0 \<and> x < 1023 then 0 else ee x)"
    proof (cases "x = a + 4")
      case True
      then show ?thesis using a by (simp add: statusEmpty_def)
    next
      case False
      have c: "(a + 5 + 4 \<le> x \<and> (x - (a + 5 + 4)) mod 5 = 0 \<and> x < 1023) =
          (a + 4 \<le> x \<and> (x - (a + 4)) mod 5 = 0 \<and> x < 1023)"
        using False by presburger
      have e: "?ee' x = ee x"
        using False by simp
      show ?thesis by (simp only: c e)
    qed
    finally show ?thesis .
  next
    case False
    then have a: "1019 \<le> a" by (simp add: eepLength_def)
    have "clearAuthTags_loop ee a x = ee x"
      using False by (subst clearAuthTags_loop.simps) simp
    moreover have "(a + 4 \<le> x \<and> (x - (a + 4)) mod 5 = 0 \<and> x < 1023) = False"
      using a by arith
    ultimately show ?thesis by (simp only: if_False)
  qed
qed

lemma clearAuthTags_apply:
  "clearAuthTags ee x = (if x mod 5 = 4 \<and> x < 1020 then 0 else ee x)"
proof -
  have "(4 \<le> x \<and> (x - 4) mod 5 = 0 \<and> x < 1023) = (x mod 5 = 4 \<and> x < 1020)"
    by presburger
  then show ?thesis
    by (simp add: clearAuthTags_def clearAuthTags_loop_apply)
qed

lemma slotStatus_clearAuthTags:
  "k < numSlots \<Longrightarrow> slotStatus (clearAuthTags ee) k = 0"
  by (simp add: slotStatus_def clearAuthTags_apply numSlots_def)

lemma readEntryId_unfold:
  "readEntryId ee a =
     push_bit 8 (push_bit 8 (push_bit 8 (ucast (ee a)) + ucast (ee (a + 1))) + ucast (ee (a + 2)))
       + ucast (ee (a + 3))"
  by (simp add: readEntryId_def upt_rec numeral_eq_Suc)

lemma readEntryId_cong:
  assumes "ee' a = ee a" "ee' (a + 1) = ee (a + 1)" "ee' (a + 2) = ee (a + 2)"
    "ee' (a + 3) = ee (a + 3)"
  shows "readEntryId ee' a = readEntryId ee a"
  by (simp only: readEntryId_unfold assms)

lemma slotId_clearAuthTags: "slotId (clearAuthTags ee) k = slotId ee k"
proof -
  have "(5 * k) mod 5 \<noteq> 4" "(5 * k + 1) mod 5 \<noteq> 4" "(5 * k + 2) mod 5 \<noteq> 4"
    "(5 * k + 3) mod 5 \<noteq> 4" by presburger+
  then show ?thesis
    unfolding slotId_def by (intro readEntryId_cong) (simp_all add: clearAuthTags_apply)
qed

subsection \<open>\<open>addAuthTag\<close> and \<open>checkAuthTag\<close>, slot by slot\<close>

lemma addAuthTag_loop_free:
  assumes "k < numSlots" "slotFree ee k"
  shows "addAuthTag_loop ee f (5 * k) = (writeEntry ee (5 * k) f, statusAuthorized)"
  using assms
  by (subst addAuthTag_loop.simps)
    (auto simp: numSlots_def eepLength_def slotFree_def slotStatus_def statusEmpty_def uint_0_iff add.commute)

lemma addAuthTag_loop_used:
  assumes "k < numSlots" "\<not> slotFree ee k"
  shows "addAuthTag_loop ee f (5 * k) = addAuthTag_loop ee f (5 * Suc k)"
  using assms
  by (subst addAuthTag_loop.simps)
    (auto simp: numSlots_def eepLength_def slotFree_def slotStatus_def statusEmpty_def uint_0_iff add.commute)

lemma addAuthTag_loop_end: "addAuthTag_loop ee f (5 * numSlots) = (ee, 0)"
  by (subst addAuthTag_loop.simps) (simp add: numSlots_def eepLength_def)

lemma addAuthTag_loop_first:
  assumes "k \<le> j" "j < numSlots" "slotFree ee j" "\<forall>i. k \<le> i \<and> i < j \<longrightarrow> \<not> slotFree ee i"
  shows "addAuthTag_loop ee f (5 * k) = (writeEntry ee (5 * j) f, statusAuthorized)"
  using assms(1,4)
proof (induction k rule: inc_induct)
  case base
  show ?case using assms(2,3) by (rule addAuthTag_loop_free)
next
  case (step n)
  have "addAuthTag_loop ee f (5 * n) = addAuthTag_loop ee f (5 * Suc n)"
    using step.hyps step.prems assms(2) by (intro addAuthTag_loop_used) auto
  also have "\<dots> = (writeEntry ee (5 * j) f, statusAuthorized)"
    using step.prems by (intro step.IH) auto
  finally show ?case .
qed

lemma addAuthTag_loop_full:
  assumes "k \<le> numSlots" "\<forall>i. k \<le> i \<and> i < numSlots \<longrightarrow> \<not> slotFree ee i"
  shows "addAuthTag_loop ee f (5 * k) = (ee, 0)"
  using assms
proof (induction k rule: inc_induct)
  case base
  show ?case by (rule addAuthTag_loop_end)
next
  case (step n)
  have "addAuthTag_loop ee f (5 * n) = addAuthTag_loop ee f (5 * Suc n)"
    using step.hyps step.prems by (intro addAuthTag_loop_used) auto
  also have "\<dots> = (ee, 0)"
    using step.prems by (intro step.IH) auto
  finally show ?case .
qed

lemma addAuthTag_first:
  assumes "j < numSlots" "slotFree ee j" "\<forall>i. i < j \<longrightarrow> \<not> slotFree ee i"
  shows "addAuthTag ee f = (writeEntry ee (5 * j) f, statusAuthorized)"
proof -
  have "addAuthTag_loop ee f (5 * 0) = (writeEntry ee (5 * j) f, statusAuthorized)"
    using assms by (intro addAuthTag_loop_first) auto
  then show ?thesis by (simp add: addAuthTag_def)
qed

lemma addAuthTag_full:
  assumes "\<forall>i. i < numSlots \<longrightarrow> \<not> slotFree ee i"
  shows "addAuthTag ee f = (ee, 0)"
proof -
  have "addAuthTag_loop ee f (5 * 0) = (ee, 0)"
    using assms by (intro addAuthTag_loop_full) auto
  then show ?thesis by (simp add: addAuthTag_def)
qed

lemma addAuthTag_result_full:
  "(snd (addAuthTag ee f) = 0) = (\<forall>k. k < numSlots \<longrightarrow> \<not> slotFree ee k)"
proof (cases "\<exists>k. k < numSlots \<and> slotFree ee k")
  case True
  define j where "j = (LEAST k. k < numSlots \<and> slotFree ee k)"
  from True have j: "j < numSlots \<and> slotFree ee j"
    unfolding j_def by (rule LeastI_ex)
  have "\<forall>i. i < j \<longrightarrow> \<not> slotFree ee i"
  proof (intro allI impI notI)
    fix i assume "i < j" "slotFree ee i"
    with j have "i < numSlots \<and> slotFree ee i" by simp
    then have "j \<le> i" unfolding j_def by (rule Least_le)
    with \<open>i < j\<close> show False by simp
  qed
  with j have "addAuthTag ee f = (writeEntry ee (5 * j) f, statusAuthorized)"
    by (intro addAuthTag_first) auto
  with True show ?thesis by (auto simp: statusAuthorized_def)
next
  case False
  then have "\<forall>i. i < numSlots \<longrightarrow> \<not> slotFree ee i" by blast
  then show ?thesis by (simp add: addAuthTag_full)
qed

lemma checkAuthTag_loop_step:
  assumes "k < numSlots"
  shows "checkAuthTag_loop ee f (5 * k) s =
    checkAuthTag_loop ee f (5 * Suc k) (if slotId ee k = f then slotStatus ee k else s)"
  using assms
  by (subst checkAuthTag_loop.simps)
    (simp add: numSlots_def eepLength_def slotId_def slotStatus_def add.commute)

lemma checkAuthTag_loop_end: "checkAuthTag_loop ee f (5 * numSlots) s = s"
  by (subst checkAuthTag_loop.simps) (simp add: numSlots_def eepLength_def)

lemma checkAuthTag_loop_none:
  assumes "k \<le> numSlots" "\<forall>i. k \<le> i \<and> i < numSlots \<longrightarrow> slotId ee i \<noteq> f"
  shows "checkAuthTag_loop ee f (5 * k) s = s"
  using assms
proof (induction k rule: inc_induct)
  case base
  show ?case by (rule checkAuthTag_loop_end)
next
  case (step n)
  have "slotId ee n \<noteq> f" using step.hyps step.prems by auto
  then have "checkAuthTag_loop ee f (5 * n) s = checkAuthTag_loop ee f (5 * Suc n) s"
    using step.hyps by (simp add: checkAuthTag_loop_step)
  also have "\<dots> = s"
    using step.prems by (intro step.IH) auto
  finally show ?case .
qed

lemma checkAuthTag_loop_last:
  assumes "k \<le> j" "j < numSlots" "slotId ee j = f"
    "\<forall>i. j < i \<and> i < numSlots \<longrightarrow> slotId ee i \<noteq> f"
  shows "checkAuthTag_loop ee f (5 * k) s = slotStatus ee j"
  using assms(1)
proof (induction k arbitrary: s rule: inc_induct)
  case base
  have "checkAuthTag_loop ee f (5 * j) s = checkAuthTag_loop ee f (5 * Suc j) (slotStatus ee j)"
    using assms(2,3) by (simp add: checkAuthTag_loop_step)
  also have "\<dots> = slotStatus ee j"
    using assms(2,4) by (intro checkAuthTag_loop_none) auto
  finally show ?case .
next
  case (step n)
  have "n < numSlots" using step.hyps assms(2) by simp
  then show ?case
    by (simp only: checkAuthTag_loop_step step.IH)
qed

lemma checkAuthTag_loop_all_empty:
  assumes "k \<le> numSlots" "\<forall>i. k \<le> i \<and> i < numSlots \<longrightarrow> slotStatus ee i = 0"
  shows "checkAuthTag_loop ee f (5 * k) 0 = 0"
  using assms
proof (induction k rule: inc_induct)
  case base
  show ?case by (rule checkAuthTag_loop_end)
next
  case (step n)
  then have "slotStatus ee n = 0" by auto
  then have "checkAuthTag_loop ee f (5 * n) 0 = checkAuthTag_loop ee f (5 * Suc n) 0"
    using step.hyps by (simp add: checkAuthTag_loop_step)
  also have "\<dots> = 0"
    using step.prems by (intro step.IH) auto
  finally show ?case .
qed

lemma checkAuthTag_none:
  assumes "\<forall>i. i < numSlots \<longrightarrow> slotId ee i \<noteq> f"
  shows "checkAuthTag ee f = 0"
proof -
  have "checkAuthTag_loop ee f (5 * 0) 0 = 0"
    using assms by (intro checkAuthTag_loop_none) auto
  then show ?thesis by (simp add: checkAuthTag_def)
qed

lemma checkAuthTag_last:
  assumes "j < numSlots" "slotId ee j = f"
    "\<forall>i. j < i \<and> i < numSlots \<longrightarrow> slotId ee i \<noteq> f"
  shows "checkAuthTag ee f = uint (slotStatus ee j)"
proof -
  have "checkAuthTag_loop ee f (5 * 0) 0 = slotStatus ee j"
    using assms by (intro checkAuthTag_loop_last) auto
  then show ?thesis by (simp add: checkAuthTag_def)
qed

subsection \<open>The bytes of an entry\<close>

lemma shift_add_byte:
  fixes x :: "32 word" and b :: "8 word"
  shows "push_bit 8 x + ucast b = push_bit 8 x OR ucast b"
  by (rule disjunctive_add_eq_or, rule bit_eqI) (auto simp: bit_simps dest: bit_imp_le_length)

lemma low_byte:
  fixes x :: "32 word"
  shows "(ucast (x AND 0xFF) :: 8 word) = ucast x"
proof -
  have m: "(0xFF :: 32 word) = mask 8" by (simp add: mask_eq_exp_minus_1)
  show ?thesis
    unfolding m by (intro bit_eqI) (auto simp: bit_simps)
qed

lemma join_bytes:
  fixes f :: "32 word"
  shows "push_bit 8 (push_bit 8 (push_bit 8 (ucast (ucast (drop_bit 24 f AND 0xFF) :: 8 word))
            + ucast (ucast (drop_bit 16 f AND 0xFF) :: 8 word))
            + ucast (ucast (drop_bit 8 f AND 0xFF) :: 8 word))
          + ucast (ucast (f AND 0xFF) :: 8 word) = f"
proof (simp only: shift_add_byte low_byte, rule bit_eqI)
  fix n :: nat
  let ?j = "push_bit 8 (push_bit 8 (push_bit 8 (ucast (ucast (drop_bit 24 f) :: 8 word))
            OR ucast (ucast (drop_bit 16 f) :: 8 word))
            OR ucast (ucast (drop_bit 8 f) :: 8 word))
          OR (ucast (ucast f :: 8 word) :: 32 word)"
  consider "n < 8" | "8 \<le> n" "n < 16" | "16 \<le> n" "n < 24" | "24 \<le> n" "n < 32" | "32 \<le> n"
    by linarith
  then show "bit ?j n = bit f n"
  proof cases
    case 1
    then show ?thesis by (auto simp: bit_simps)
  next
    case 2
    then have "8 + (n - 8) = n" by simp
    with 2 show ?thesis by (auto simp: bit_simps)
  next
    case 3
    then have "16 + (n - 16) = n" "\<not> n - 8 < 8" by simp_all
    with 3 show ?thesis by (auto simp: bit_simps)
  next
    case 4
    then have "24 + (n - 24) = n" "\<not> n - 8 < 8" "\<not> n - 16 < 8" by simp_all
    with 4 show ?thesis by (auto simp: bit_simps)
  next
    case 5
    then show ?thesis by (auto dest: bit_imp_le_length)
  qed
qed

lemma writeEntry_apply:
  "writeEntry ee a f x =
     (if x = a + 4 then 1
      else if x = a + 3 then ucast (f AND 0xFF)
      else if x = a + 2 then ucast (drop_bit 8 f AND 0xFF)
      else if x = a + 1 then ucast (drop_bit 16 f AND 0xFF)
      else if x = a then ucast (drop_bit 24 f AND 0xFF)
      else ee x)"
  by (simp add: writeEntry_def statusAuthorized_def)

lemma readEntryId_writeEntry: "readEntryId (writeEntry ee a f) a = f"
  by (simp add: readEntryId_unfold writeEntry_apply join_bytes)

lemma readEntryId_writeEntry_other:
  "a' + 4 \<le> a \<or> a + 5 \<le> a' \<Longrightarrow> readEntryId (writeEntry ee a f) a' = readEntryId ee a'"
  by (intro readEntryId_cong) (auto simp: writeEntry_apply)

lemma slotId_writeEntry: "slotId (writeEntry ee (5 * j) f) j = f"
  by (simp add: slotId_def readEntryId_writeEntry)

lemma slotStatus_writeEntry: "slotStatus (writeEntry ee (5 * j) f) j = 1"
  by (simp add: slotStatus_def writeEntry_apply)

lemma slotId_writeEntry_other:
  "i \<noteq> j \<Longrightarrow> slotId (writeEntry ee (5 * j) f) i = slotId ee i"
  unfolding slotId_def by (rule readEntryId_writeEntry_other) arith

lemma slotStatus_writeEntry_other:
  "i \<noteq> j \<Longrightarrow> slotStatus (writeEntry ee (5 * j) f) i = slotStatus ee i"
  by (simp add: slotStatus_def writeEntry_apply)


lemma slotId_writeEntry_at:
  assumes "a mod 5 = 0"
  shows "slotId (writeEntry ee a f) i = (if a = 5 * i then f else slotId ee i)"
proof (cases "a = 5 * i")
  case True
  then show ?thesis by (simp add: slotId_writeEntry)
next
  case False
  from assms have "a = 5 * (a div 5)" by presburger
  moreover from False this have "i \<noteq> a div 5" by auto
  ultimately have "slotId (writeEntry ee a f) i = slotId ee i"
    using slotId_writeEntry_other [of i "a div 5" ee f] by simp
  with False show ?thesis by simp
qed

lemma slotStatus_writeEntry_at:
  assumes "a mod 5 = 0"
  shows "slotStatus (writeEntry ee a f) i = (if a = 5 * i then 1 else slotStatus ee i)"
proof (cases "a = 5 * i")
  case True
  then show ?thesis by (simp add: slotStatus_writeEntry)
next
  case False
  from assms have "a = 5 * (a div 5)" by presburger
  moreover from False this have "i \<noteq> a div 5" by auto
  ultimately have "slotStatus (writeEntry ee a f) i = slotStatus ee i"
    using slotStatus_writeEntry_other [of i "a div 5" ee f] by simp
  with False show ?thesis by simp
qed

subsection \<open>The stores of the examples\<close>

lemma slotId_freshEeprom: "slotId freshEeprom k = 0xFFFFFFFF"
  by (simp add: slotId_def readEntryId_unfold freshEeprom_def)

lemma slotStatus_freshEeprom: "slotStatus freshEeprom k = 0xFF"
  by (simp add: slotStatus_def freshEeprom_def)

lemma slotFree_freshEeprom: "slotFree freshEeprom k"
  by (simp add: slotFree_def slotStatus_def freshEeprom_def)

lemma addAuthTag_freshEeprom:
  "addAuthTag freshEeprom f = (writeEntry freshEeprom 0 f, statusAuthorized)"
  using addAuthTag_first [of 0 freshEeprom f]
  by (simp add: slotFree_freshEeprom numSlots_def)

lemma addAuthTag_second:
  "addAuthTag (writeEntry freshEeprom 0 f) g
     = (writeEntry (writeEntry freshEeprom 0 f) 5 g, statusAuthorized)"
proof -
  have "1 < numSlots" by (simp add: numSlots_def)
  moreover have "slotFree (writeEntry freshEeprom 0 f) 1"
    by (simp add: slotFree_def slotStatus_writeEntry_at slotStatus_freshEeprom)
  moreover have "\<forall>i. i < 1 \<longrightarrow> \<not> slotFree (writeEntry freshEeprom 0 f) i"
    by (simp add: slotFree_def slotStatus_writeEntry_at)
  ultimately show ?thesis
    using addAuthTag_first [of 1 "writeEntry freshEeprom 0 f" g] by simp
qed

lemma addAuthTag_third:
  "addAuthTag (writeEntry (writeEntry freshEeprom 0 f) 5 g) h
     = (writeEntry (writeEntry (writeEntry freshEeprom 0 f) 5 g) 10 h, statusAuthorized)"
proof -
  let ?two = "writeEntry (writeEntry freshEeprom 0 f) 5 g"
  have "2 < numSlots" by (simp add: numSlots_def)
  moreover have "slotFree ?two 2"
    by (simp add: slotFree_def slotStatus_writeEntry_at slotStatus_freshEeprom)
  moreover have "\<forall>i. i < 2 \<longrightarrow> \<not> slotFree ?two i"
    by (auto simp add: slotFree_def slotStatus_writeEntry_at less_2_cases_iff)
  ultimately show ?thesis
    using addAuthTag_first [of 2 ?two h] by simp
qed

lemma addAuthTag_cleared:
  "addAuthTag (clearAuthTags ee) f = (writeEntry (clearAuthTags ee) 0 f, statusAuthorized)"
  using addAuthTag_first [of 0 "clearAuthTags ee" f]
  by (simp add: slotFree_def slotStatus_clearAuthTags numSlots_def)

lemma enrolledTwo_eq:
  "enrolledTwo = writeEntry (writeEntry freshEeprom 0 0x11111111) 5 0x22222222"
  by (simp only: enrolledTwo_def addAuthTag_freshEeprom addAuthTag_second fst_conv)

lemma slotId_enrolledTwo:
  "slotId enrolledTwo k = (if k = 0 then 0x11111111 else if k = 1 then 0x22222222 else 0xFFFFFFFF)"
  by (auto simp add: enrolledTwo_eq slotId_writeEntry_at slotId_freshEeprom)

lemma enrolledThree_eq:
  "enrolledThree
     = writeEntry (writeEntry (writeEntry freshEeprom 0 0x11111111) 5 0x22222222) 10 0x33333333"
  by (simp only: enrolledThree_def addAuthTag_freshEeprom addAuthTag_second addAuthTag_third
      fst_conv)

lemma slotId_enrolledThree:
  "slotId enrolledThree k =
     (if k = 0 then 0x11111111 else if k = 1 then 0x22222222
      else if k = 2 then 0x33333333 else 0xFFFFFFFF)"
  by (auto simp add: enrolledThree_eq slotId_writeEntry_at slotId_freshEeprom)

lemma fullEeprom_full: "\<forall>k. k < numSlots \<longrightarrow> \<not> slotFree fullEeprom k"
  by (simp add: slotFree_def slotStatus_def fullEeprom_def)

lemma slotId_fullEeprom: "slotId fullEeprom k = 0x01010101"
  by (simp add: slotId_def readEntryId_unfold fullEeprom_def)

lemma checkAuthTag_fullEeprom: "checkAuthTag fullEeprom 0x11111111 = 0"
  by (rule checkAuthTag_none) (simp add: slotId_fullEeprom)

lemma checkAuthTag_freshEeprom_ones: "checkAuthTag freshEeprom 0xFFFFFFFF = 0xFF"
proof -
  have "checkAuthTag freshEeprom 0xFFFFFFFF = uint (slotStatus freshEeprom 203)"
    by (rule checkAuthTag_last) (simp_all add: numSlots_def slotId_freshEeprom)
  then show ?thesis by (simp add: slotStatus_freshEeprom)
qed

lemma checkAuthTag_freshEeprom_other:
  "fobId \<noteq> 0xFFFFFFFF \<Longrightarrow> checkAuthTag freshEeprom fobId = 0"
  by (rule checkAuthTag_none) (simp add: slotId_freshEeprom)

lemma checkAuthTag_freshEeprom_admin: "checkAuthTag freshEeprom 0x009afb7f = 0"
  by (rule checkAuthTag_freshEeprom_other) simp

subsection \<open>Erasing the store\<close>

text \<open>
  C8. \<open>clearAuthTags\<close> sets the status byte of every slot to \<open>statusEmpty\<close> and leaves the
  four id bytes of every slot as they were (and so the id read from the slot); it writes
  nothing behind the last slot. On a store whose slots all have the status \<open>statusEmpty\<close>
  already, the EEPROM after the call is the EEPROM before it.
\<close>

theorem clearAuthTags_resets_status_only:
  "(\<forall>k. k < numSlots \<longrightarrow>
       uint (slotStatus (clearAuthTags ee) k) = statusEmpty
       \<and> (\<forall>i. i < 4 \<longrightarrow> clearAuthTags ee (5 * k + i) = ee (5 * k + i))
       \<and> slotId (clearAuthTags ee) k = slotId ee k)
   \<and> (\<forall>addr. 5 * numSlots \<le> addr \<longrightarrow> clearAuthTags ee addr = ee addr)
   \<and> ((\<forall>k. k < numSlots \<longrightarrow> uint (slotStatus ee k) = statusEmpty) \<longrightarrow> clearAuthTags ee = ee)"
proof (intro conjI allI impI)
  fix k assume "k < numSlots"
  then show "uint (slotStatus (clearAuthTags ee) k) = statusEmpty"
    by (simp add: slotStatus_clearAuthTags statusEmpty_def)
next
  fix k i :: nat assume "i < 4"
  then have "(5 * k + i) mod 5 \<noteq> 4" by presburger
  then show "clearAuthTags ee (5 * k + i) = ee (5 * k + i)"
    by (simp add: clearAuthTags_apply)
next
  fix k show "slotId (clearAuthTags ee) k = slotId ee k"
    by (rule slotId_clearAuthTags)
next
  fix addr assume "5 * numSlots \<le> addr"
  then show "clearAuthTags ee addr = ee addr"
    by (simp add: clearAuthTags_apply numSlots_def)
next
  assume empty: "\<forall>k. k < numSlots \<longrightarrow> uint (slotStatus ee k) = statusEmpty"
  show "clearAuthTags ee = ee"
  proof (rule ext)
    fix x
    show "clearAuthTags ee x = ee x"
    proof (cases "x mod 5 = 4 \<and> x < 1020")
      case True
      then have "x = 5 * (x div 5) + 4" "x div 5 < numSlots"
        unfolding numSlots_def by presburger+
      with empty have "ee x = 0"
        by (metis slotStatus_def statusEmpty_def uint_0_iff)
      with True show ?thesis by (simp add: clearAuthTags_apply)
    next
      case False
      then show ?thesis by (auto simp add: clearAuthTags_apply)
    qed
  qed
qed

theorem clearAuthTags_resets_status_only_witness:
  "uint (slotStatus (clearAuthTags freshEeprom) 7) = statusEmpty
   \<and> clearAuthTags freshEeprom (5 * 7 + 2) = 0xFF
   \<and> clearAuthTags freshEeprom 1022 = 0xFF
   \<and> clearAuthTags (\<lambda>addr. 0) = (\<lambda>addr. 0)"
proof -
  have a: "(7::nat) < numSlots" "(2::nat) < 4" "5 * numSlots \<le> 1022"
    by (simp_all add: numSlots_def)
  have b: "\<forall>k. k < numSlots \<longrightarrow> uint (slotStatus (\<lambda>addr. 0) k) = statusEmpty"
    by (simp add: slotStatus_def statusEmpty_def)
  note fresh = clearAuthTags_resets_status_only [of freshEeprom]
  note zero = clearAuthTags_resets_status_only [of "\<lambda>addr. 0"]
  from fresh a have "uint (slotStatus (clearAuthTags freshEeprom) 7) = statusEmpty"
    by blast
  moreover from fresh a
  have "clearAuthTags freshEeprom (5 * 7 + 2) = freshEeprom (5 * 7 + 2)"
    by blast
  moreover from fresh a have "clearAuthTags freshEeprom 1022 = freshEeprom 1022"
    by blast
  moreover from zero b have "clearAuthTags (\<lambda>addr. 0) = (\<lambda>addr. 0)"
    by blast
  ultimately show ?thesis
    by (simp add: freshEeprom_def)
qed

subsection \<open>Adding a tag\<close>




subsection \<open>Looking a tag up\<close>

text \<open>
  Two things that do hold. After \<open>clearAuthTags\<close> the lookup of every tag gives
  \<open>statusEmpty\<close>. And a tag that was added with success is found with the status
  \<open>statusAuthorized\<close>, as long as every slot that held its id bytes before has that
  status too. What is left is a slot with these id bytes and another status byte behind
  the slot that was written.
\<close>

lemma checkAuthTag_clearAuthTags: "checkAuthTag (clearAuthTags ee) f = statusEmpty"
proof -
  have "checkAuthTag_loop (clearAuthTags ee) f (5 * 0) 0 = 0"
    by (rule checkAuthTag_loop_all_empty) (simp_all add: slotStatus_clearAuthTags)
  then show ?thesis by (simp add: checkAuthTag_def statusEmpty_def)
qed

lemma checkAuthTag_after_addAuthTag:
  assumes "snd (addAuthTag ee f) \<noteq> 0"
    and "\<forall>i. i < numSlots \<and> slotId ee i = f \<longrightarrow> uint (slotStatus ee i) = statusAuthorized"
  shows "checkAuthTag (fst (addAuthTag ee f)) f = statusAuthorized"
proof -
  from assms(1) have "\<exists>k. k < numSlots \<and> slotFree ee k"
    by (auto simp: addAuthTag_result_full)
  define j where "j = (LEAST k. k < numSlots \<and> slotFree ee k)"
  from \<open>\<exists>k. k < numSlots \<and> slotFree ee k\<close> have j: "j < numSlots \<and> slotFree ee j"
    unfolding j_def by (rule LeastI_ex)
  have first: "\<forall>i. i < j \<longrightarrow> \<not> slotFree ee i"
  proof (intro allI impI notI)
    fix i assume "i < j" "slotFree ee i"
    with j have "i < numSlots \<and> slotFree ee i" by simp
    then have "j \<le> i" unfolding j_def by (rule Least_le)
    with \<open>i < j\<close> show False by simp
  qed
  let ?ee = "writeEntry ee (5 * j) f"
  from j first have add: "addAuthTag ee f = (?ee, statusAuthorized)"
    by (intro addAuthTag_first) auto
  have id: "slotId ?ee i = (if i = j then f else slotId ee i)" for i
    by (simp add: slotId_writeEntry_at)
  have status: "slotStatus ?ee i = (if i = j then 1 else slotStatus ee i)" for i
    by (simp add: slotStatus_writeEntry_at)
  have all: "uint (slotStatus ?ee i) = statusAuthorized" if "i < numSlots" "slotId ?ee i = f" for i
    using that assms(2) by (auto simp: id status statusAuthorized_def)
  define m where "m = (GREATEST i. i < numSlots \<and> slotId ?ee i = f)"
  have ex: "j < numSlots \<and> slotId ?ee j = f" using j by (simp add: id)
  have m: "m < numSlots \<and> slotId ?ee m = f"
    unfolding m_def
    by (rule GreatestI_nat [where P = "\<lambda>i. i < numSlots \<and> slotId ?ee i = f" and b = numSlots])
      (use ex in simp_all)
  have later: "\<forall>i. m < i \<and> i < numSlots \<longrightarrow> slotId ?ee i \<noteq> f"
  proof (intro allI impI notI)
    fix i assume "m < i \<and> i < numSlots" "slotId ?ee i = f"
    then have "i < numSlots \<and> slotId ?ee i = f" by simp
    then have "i \<le> m"
      unfolding m_def
      by (rule Greatest_le_nat [where P = "\<lambda>i. i < numSlots \<and> slotId ?ee i = f"
            and b = numSlots]) simp
    with \<open>m < i \<and> i < numSlots\<close> show False by simp
  qed
  have "checkAuthTag ?ee f = uint (slotStatus ?ee m)"
    using m later by (intro checkAuthTag_last) auto
  also have "\<dots> = statusAuthorized"
    using m by (intro all) auto
  finally show ?thesis by (simp add: add)
qed

text \<open>
  C3, at a failing input. Add \<open>0x11111111\<close> and \<open>0x22222222\<close> to an EEPROM that was never
  written, erase the store, and add \<open>0x22222222\<close> again: \<open>addAuthTag\<close> succeeds (the tag
  goes to slot 0), and \<open>checkAuthTag\<close> for the same tag returns \<open>statusEmpty\<close>, because
  slot 1 still holds the id bytes of the tag, with the status \<open>statusEmpty\<close>, and is read
  after slot 0.
\<close>

theorem checkAuthTag_shadowed_after_reenrol:
  "snd (addAuthTag (clearAuthTags enrolledTwo) 0x22222222) = statusAuthorized
   \<and> checkAuthTag (fst (addAuthTag (clearAuthTags enrolledTwo) 0x22222222)) 0x22222222
       = statusEmpty"
proof -
  let ?ee = "writeEntry (clearAuthTags enrolledTwo) 0 0x22222222"
  have id: "slotId ?ee k = (if k = 0 \<or> k = 1 then 0x22222222 else 0xFFFFFFFF)" for k
    by (auto simp add: slotId_writeEntry_at slotId_clearAuthTags slotId_enrolledTwo)
  have st: "slotStatus ?ee 1 = 0"
    by (simp add: slotStatus_writeEntry_at slotStatus_clearAuthTags numSlots_def)
  have "checkAuthTag ?ee 0x22222222 = uint (slotStatus ?ee 1)"
    by (rule checkAuthTag_last) (simp_all add: id numSlots_def)
  also have "\<dots> = 0"
    unfolding st by simp
  finally show ?thesis
    by (simp add: addAuthTag_cleared statusEmpty_def)
qed

text \<open>
  C4, at a failing input. When a slot that matches \<open>fobId\<close> and has the status
  \<open>statusAuthorized\<close> is followed by a slot that matches and has the status
  \<open>statusEmpty\<close>, and no later slot matches, \<open>checkAuthTag\<close> returns \<open>statusEmpty\<close>: the
  status of the last matching entry, which is empty, and not the status of the last
  matching entry that is not empty.
\<close>

theorem checkAuthTag_takes_last_match_even_if_empty:
  assumes "i < j" "j < numSlots"
    and "slotId ee i = fobId" "uint (slotStatus ee i) = statusAuthorized"
    and "slotId ee j = fobId" "uint (slotStatus ee j) = statusEmpty"
    and "\<forall>k. j < k \<and> k < numSlots \<longrightarrow> slotId ee k \<noteq> fobId"
  shows "checkAuthTag ee fobId = statusEmpty"
  using checkAuthTag_last [of j ee fobId] assms by simp

theorem checkAuthTag_takes_last_match_even_if_empty_witness:
  "slotId (fst (addAuthTag (clearAuthTags enrolledThree) 0x33333333)) 0 = 0x33333333
   \<and> uint (slotStatus (fst (addAuthTag (clearAuthTags enrolledThree) 0x33333333)) 0)
       = statusAuthorized
   \<and> checkAuthTag (fst (addAuthTag (clearAuthTags enrolledThree) 0x33333333)) 0x33333333
       = statusEmpty"
proof -
  let ?ee = "writeEntry (clearAuthTags enrolledThree) 0 0x33333333"
  have id: "slotId ?ee k = (if k = 0 \<or> k = 2 then 0x33333333
      else if k = 1 then 0x22222222 else 0xFFFFFFFF)" for k
    by (auto simp add: slotId_writeEntry_at slotId_clearAuthTags slotId_enrolledThree)
  have st0: "uint (slotStatus ?ee 0) = statusAuthorized"
    by (simp add: slotStatus_writeEntry_at statusAuthorized_def)
  have st2: "uint (slotStatus ?ee 2) = statusEmpty"
    by (simp add: slotStatus_writeEntry_at slotStatus_clearAuthTags numSlots_def statusEmpty_def)
  have later: "\<forall>k. 2 < k \<and> k < numSlots \<longrightarrow> slotId ?ee k \<noteq> 0x33333333"
    by (simp add: id)
  have "checkAuthTag ?ee 0x33333333 = statusEmpty"
    using checkAuthTag_takes_last_match_even_if_empty [of 0 2 ?ee "0x33333333"] st0 st2 later
    by (simp add: id numSlots_def)
  then show ?thesis
    using st0 by (simp add: addAuthTag_cleared id)
qed

section \<open>Properties of the frame decoder\<close>

lemma packetChecksum_six:
  "packetChecksum [b0, b1, b2, b3, b4, b5] = b0 XOR b1 XOR b2 XOR b3 XOR b4 XOR b5"
  by (simp add: packetChecksum_def upt_rec numeral_eq_Suc xor.assoc)

lemma firstDifferent_end: "6 \<le> i \<Longrightarrow> firstDifferent p i = i"
  by (subst firstDifferent.simps) simp

lemma firstDifferent_step:
  "i < 6 \<Longrightarrow> firstDifferent p i = (if p ! i \<noteq> p ! 0 then i else firstDifferent p (i + 1))"
  by (subst firstDifferent.simps) simp

lemma firstDifferent_six:
  "(6 \<le> firstDifferent [b0, b1, b2, b3, b4, b5] 1)
     = (b1 = b0 \<and> b2 = b0 \<and> b3 = b0 \<and> b4 = b0 \<and> b5 = b0)"
  by (simp add: firstDifferent_step firstDifferent_end)

lemma readPacket_six:
  "readPacket [v0, v1, v2, v3, v4, v5] []
     = [reverseBits v0, reverseBits v1, reverseBits v2, reverseBits v3, reverseBits v4,
        reverseBits v5]"
  by simp

lemma decodePacket_six:
  "decodePacket [b0, b1, b2, b3, b4, b5] =
     (if b0 XOR b1 XOR b2 XOR b3 XOR b4 XOR b5 = 0
         \<and> \<not> (b1 = b0 \<and> b2 = b0 \<and> b3 = b0 \<and> b4 = b0 \<and> b5 = b0)
      then Some (packetFobId [b0, b1, b2, b3, b4, b5]) else None)"
  unfolding decodePacket_def packetChecksum_six firstDifferent_six by simp

lemma packetFobId_six:
  "packetFobId [b0, b1, b2, b3, b4, b5]
     = push_bit 8 (push_bit 8 (push_bit 8 (scast b1) + scast b2) + scast b3) + scast b4"
  by (simp add: packetFobId_def upt_rec numeral_eq_Suc)

lemma reverseBits_unfold:
  "reverseBits val =
     (let b0 = (if val AND 1 \<noteq> 0 then 128 else 0);
          b1 = (if val AND 2 \<noteq> 0 then b0 OR 64 else b0);
          b2 = (if val AND 4 \<noteq> 0 then b1 OR 32 else b1);
          b3 = (if val AND 8 \<noteq> 0 then b2 OR 16 else b2);
          b4 = (if val AND 16 \<noteq> 0 then b3 OR 8 else b3);
          b5 = (if val AND 32 \<noteq> 0 then b4 OR 4 else b4);
          b6 = (if val AND 64 \<noteq> 0 then b5 OR 2 else b5)
      in if val AND 128 \<noteq> 0 then b6 OR 1 else b6)"
  by (simp add: reverseBits_def upt_rec numeral_eq_Suc Let_def)

lemma reverseBits_examples:
  "reverseBits 0x0D = 0xB0" "reverseBits 0x00 = 0x00" "reverseBits 0x59 = 0x9A"
  "reverseBits 0xDF = 0xFB" "reverseBits 0xFE = 0x7F" "reverseBits 0x75 = 0xAE"
  "reverseBits 0x88 = 0x11" "reverseBits 0xFF = 0xFF" "reverseBits 0x44 = 0x22"
  by (simp_all add: reverseBits_unfold)

lemma decode_adminFrame:
  "decodePacket (readPacket [0x0D, 0x00, 0x59, 0xDF, 0xFE, 0x75] []) = Some 0x009afb7f"
  by (simp add: reverseBits_examples decodePacket_six packetFobId_six)

lemma decode_ones:
  "decodePacket (readPacket [0x00, 0xFF, 0xFF, 0xFF, 0xFF, 0x00] []) = Some 0xFFFFFFFF"
  by (simp add: reverseBits_examples decodePacket_six packetFobId_six)

lemma decode_tag1:
  "decodePacket (readPacket [0x00, 0x88, 0x88, 0x88, 0x88, 0x00] []) = Some 0x11111111"
  by (simp add: reverseBits_examples decodePacket_six packetFobId_six)

text \<open>
  C2. A packet of six entries is accepted (the decoder produces a fob id) exactly when
  the XOR of the six entries is 0 and the entries are not all equal to the first one.
  This holds for all 16-bit entries, so also for the bytes that \<open>reverseBits\<close> gives.
  A packet that is not accepted leaves the state as it is: nothing is logged or
  sounded, no pin is written.
\<close>

theorem decodePacket_accepts_iff:
  "((\<exists>fobId. decodePacket [b0, b1, b2, b3, b4, b5] = Some fobId)
      = (b0 XOR b1 XOR b2 XOR b3 XOR b4 XOR b5 = 0
         \<and> \<not> (b1 = b0 \<and> b2 = b0 \<and> b3 = b0 \<and> b4 = b0 \<and> b5 = b0)))
   \<and> (rfidSerial inp = Start vals \<and> readPacket vals [] = [b0, b1, b2, b3, b4, b5]
        \<and> \<not> (b0 XOR b1 XOR b2 XOR b3 XOR b4 XOR b5 = 0
               \<and> \<not> (b1 = b0 \<and> b2 = b0 \<and> b3 = b0 \<and> b4 = b0 \<and> b5 = b0))
       \<longrightarrow> loop_rfid inp st = st)"
proof -
  let ?p = "[b0, b1, b2, b3, b4, b5]"
  let ?ok = "b0 XOR b1 XOR b2 XOR b3 XOR b4 XOR b5 = 0
         \<and> \<not> (b1 = b0 \<and> b2 = b0 \<and> b3 = b0 \<and> b4 = b0 \<and> b5 = b0)"
  have dec: "decodePacket ?p = (if ?ok then Some (packetFobId ?p) else None)"
    unfolding decodePacket_def packetChecksum_six firstDifferent_six by simp
  have "(\<exists>fobId. decodePacket ?p = Some fobId) = ?ok"
    unfolding dec by simp
  moreover have "loop_rfid inp st = st"
    if "rfidSerial inp = Start vals" "readPacket vals [] = ?p" "\<not> ?ok"
  proof -
    from that(3) have "decodePacket ?p = None"
      unfolding dec by (rule if_not_P)
    with that(1,2) show ?thesis
      by (simp add: loop_rfid_def)
  qed
  ultimately show ?thesis by blast
qed

theorem decodePacket_accepts_iff_witness:
  "(\<exists>fobId. decodePacket (readPacket [0x0D, 0x00, 0x59, 0xDF, 0xFE, 0x75] []) = Some fobId)
   \<and> loop_rfid \<lparr>millis = 0, runningPin = False, runningPinInv = True, adminButtonPin = True,
                 rfidSerial = Start [0x88, 0x88, 0x88, 0x88, 0x88, 0x88]\<rparr> (powerOn freshEeprom)
       = powerOn freshEeprom"
proof -
  let ?inp = "\<lparr>millis = 0, runningPin = False, runningPinInv = True, adminButtonPin = True,
                 rfidSerial = Start [0x88, 0x88, 0x88, 0x88, 0x88, 0x88]\<rparr>"
  have a: "(0xB0 :: 16 word) XOR 0x00 XOR 0x9A XOR 0xFB XOR 0x7F XOR 0xAE = 0" by simp
  have b: "(0x9A :: 16 word) \<noteq> 0xB0" by simp
  have c: "readPacket [0x88, 0x88, 0x88, 0x88, 0x88, 0x88] []
      = [0x11, 0x11, 0x11, 0x11, 0x11, 0x11]"
    by (simp add: reverseBits_examples)
  have d: "rfidSerial ?inp = Start [0x88, 0x88, 0x88, 0x88, 0x88, 0x88]" by simp
  from decodePacket_accepts_iff [of "0xB0" "0x00" "0x9A" "0xFB" "0x7F" "0xAE"] a b
  have "\<exists>fobId. decodePacket [0xB0, 0x00, 0x9A, 0xFB, 0x7F, 0xAE] = Some fobId"
    by blast
  moreover
  from decodePacket_accepts_iff [of "0x11" "0x11" "0x11" "0x11" "0x11" "0x11" ?inp
      "[0x88, 0x88, 0x88, 0x88, 0x88, 0x88]" "powerOn freshEeprom"] c d
  have "loop_rfid ?inp (powerOn freshEeprom) = powerOn freshEeprom"
    by blast
  ultimately show ?thesis
    by (simp add: reverseBits_examples)
qed

section \<open>Properties of the tag handler\<close>

lemma checkAdminTag_eq: "checkAdminTag fobId = (if fobId = 0x009afb7f then statusAdmin else 0)"
  by (simp add: checkAdminTag_def adminTagsList_def)

lemma checkAdminTag_admin: "checkAdminTag 0x009afb7f = statusAdmin"
  by (simp add: checkAdminTag_eq)

lemmas pin_defs = ADMINDOWN_def RELAYON_def RELAYOFF_def RUNON_def

lemmas out_defs = say_def setLeds_def

subsection \<open>The branches of \<open>presentFob\<close>\<close>

lemma presentFob_time:
  "presentFob inp fobId (st\<lparr>fobPresentMilli := t\<rparr>) = presentFob inp fobId st"
  by (simp add: presentFob_def)

lemma presentFob_erase:
  assumes "adminButtonPin inp = ADMINDOWN" "systemStatus st \<noteq> STATUSON"
    "systemStatus st \<noteq> STATUSTURNON" "checkAdminTag fobId = statusAdmin" "bootAdminMode st"
  shows "presentFob inp fobId st =
    (if systemStatus st \<noteq> STATUSDEL \<or> activeFobId st \<noteq> fobId
     then st\<lparr>fobPresentMilli := millis inp, ledGreenPin := False, ledRedPin := True,
             eeprom := clearAuthTags (eeprom st), systemStatus := STATUSDEL,
             effects := effects st @ [SerialLog ''deleted'' fobId 0,
                         Tone GOODBUZZTONE SHORTBUZZ, Delay SHORTBUZZ,
                         Tone GOODBUZZTONE SHORTBUZZ, Delay SHORTBUZZ,
                         Tone GOODBUZZTONE SHORTBUZZ],
             activeFobId := fobId\<rparr>
     else st\<lparr>fobPresentMilli := millis inp\<rparr>)"
  using assms by (simp add: presentFob_def Let_def out_defs)

lemma presentFob_admin:
  assumes "adminButtonPin inp = ADMINDOWN" "systemStatus st \<noteq> STATUSON"
    "systemStatus st \<noteq> STATUSTURNON" "checkAdminTag fobId = statusAdmin" "\<not> bootAdminMode st"
  shows "presentFob inp fobId st =
    (if systemStatus st \<noteq> STATUSADD \<or> activeFobId st \<noteq> fobId
     then st\<lparr>fobPresentMilli := millis inp, systemStatus := STATUSADD,
             effects := effects st @ [SerialLog ''admin'' fobId 0, Tone GOODBUZZTONE SHORTBUZZ],
             ledGreenPin := True, ledRedPin := False, activeFobId := fobId\<rparr>
     else st\<lparr>fobPresentMilli := millis inp\<rparr>)"
  using assms by (simp add: presentFob_def Let_def out_defs)

lemma presentFob_add:
  assumes "adminButtonPin inp = ADMINDOWN" "systemStatus st = STATUSADD"
    "checkAdminTag fobId \<noteq> statusAdmin" "checkAuthTag (eeprom st) fobId = 0"
  shows "presentFob inp fobId st =
    st\<lparr>fobPresentMilli := millis inp, eeprom := fst (addAuthTag (eeprom st) fobId),
       systemStatus := (if snd (addAuthTag (eeprom st) fobId) \<noteq> 0 then STATUSADDED
                        else STATUSDEL),
       effects := effects st @ [SerialLog ''added'' fobId 0,
                 Tone GOODBUZZTONE SHORTBUZZ, Delay SHORTBUZZ, Tone GOODBUZZTONE SHORTBUZZ]\<rparr>"
  using assms by (simp add: presentFob_def Let_def out_defs split: prod.splits)

lemma presentFob_button_ignored:
  assumes "adminButtonPin inp = ADMINDOWN" "systemStatus st \<noteq> STATUSON"
    "systemStatus st \<noteq> STATUSTURNON" "checkAdminTag fobId \<noteq> statusAdmin"
    and c: "systemStatus st \<noteq> STATUSADD \<or> checkAuthTag (eeprom st) fobId \<noteq> 0"
  shows "presentFob inp fobId st = st\<lparr>fobPresentMilli := millis inp\<rparr>"
proof (cases "systemStatus st = STATUSADD")
  case True
  with c have "checkAuthTag (eeprom st) fobId \<noteq> 0" by simp
  with assms(1-4) show ?thesis
    by (simp add: presentFob_def Let_def)
next
  case False
  with assms(1-4) show ?thesis
    by (simp add: presentFob_def Let_def)
qed

lemma presentFob_denied:
  assumes a: "adminButtonPin inp \<noteq> ADMINDOWN \<or> systemStatus st = STATUSON
      \<or> systemStatus st = STATUSTURNON"
    and b: "checkAuthTag (eeprom st) fobId = 0" "checkAdminTag fobId = 0"
    and c: "systemStatus st = STATUSOFF \<or> systemStatus st = STATUSTURNON"
  shows "presentFob inp fobId st =
    st\<lparr>fobPresentMilli := millis inp, ledGreenPin := False, ledRedPin := True,
       relayPin := RELAYOFF, systemStatus := STATUSDENIED,
       effects := effects st @ [Tone BADBUZZTONE LONGBUZZ, SerialLog ''denied'' fobId 0]\<rparr>"
  using c
proof
  assume s: "systemStatus st = STATUSOFF"
  with a have "adminButtonPin inp \<noteq> ADMINDOWN" by simp
  with s b show ?thesis
    by (simp add: presentFob_def Let_def out_defs)
next
  assume s: "systemStatus st = STATUSTURNON"
  with b show ?thesis
    by (simp add: presentFob_def Let_def out_defs)
qed

lemma presentFob_unauthorized_ignored:
  assumes "adminButtonPin inp \<noteq> ADMINDOWN \<or> systemStatus st = STATUSON
      \<or> systemStatus st = STATUSTURNON"
    and "checkAuthTag (eeprom st) fobId = 0" "checkAdminTag fobId = 0"
    and "systemStatus st \<noteq> STATUSOFF" "systemStatus st \<noteq> STATUSTURNON"
  shows "presentFob inp fobId st = st\<lparr>fobPresentMilli := millis inp\<rparr>"
  using assms
  by (cases "systemStatus st"; cases "adminButtonPin inp = ADMINDOWN")
    (simp_all add: presentFob_def Let_def out_defs)

lemma presentFob_login:
  assumes "adminButtonPin inp \<noteq> ADMINDOWN \<or> systemStatus st = STATUSON
      \<or> systemStatus st = STATUSTURNON"
    and "checkAuthTag (eeprom st) fobId \<noteq> 0 \<or> checkAdminTag fobId \<noteq> 0"
  shows "presentFob inp fobId st =
    (if systemStatus st = STATUSON \<or> systemStatus st = STATUSTURNON
     then st\<lparr>fobPresentMilli := millis inp, ledGreenPin := True, ledRedPin := False,
             relayPin := RELAYON\<rparr>
     else st\<lparr>fobPresentMilli := millis inp, ledGreenPin := True, ledRedPin := False,
             relayPin := RELAYON,
             effects := effects st @ [Tone GOODBUZZTONE SHORTBUZZ, SerialLog ''login'' fobId 0],
             activeFobId := fobId, systemStatus := STATUSTURNON\<rparr>)"
  using assms
  by (cases "systemStatus st"; cases "adminButtonPin inp = ADMINDOWN")
    (simp_all add: presentFob_def Let_def out_defs)

subsection \<open>Steps of \<open>loop()\<close> and runs of the sketch\<close>

lemma loop_timers_off:
  "systemStatus st = STATUSOFF \<Longrightarrow> \<not> bootAdminMode st \<Longrightarrow> loop_timers inp st = st"
  by (simp add: loop_timers_def)

lemma loop_rfid_frame:
  "rfidSerial inp = Start vals \<Longrightarrow> decodePacket (readPacket vals []) = Some fobId
    \<Longrightarrow> loop_rfid inp st = presentFob inp fobId st"
  by (simp add: loop_rfid_def)

lemma loop_rfid_nodata: "rfidSerial inp = NoData \<Longrightarrow> loop_rfid inp st = st"
  by (simp add: loop_rfid_def)

lemma setup_idle:
  "setup_fn idle (powerOn ee) =
     \<lparr>systemStatus = STATUSOFF, bootAdminMode = False, fobPresentMilli = 0,
      runTimeMilli = 0, runningGraceMilli = 0, activeFobId = 0, eeprom = ee,
      ledGreenPin = False, ledRedPin = False, relayPin = False,
      effects = [SerialLog ''boot'' 0 0, Delay 150, Delay 150, Delay 150]\<rparr>"
  by (simp add: setup_fn_def powerOn_def idle_def out_defs pin_defs keepRunningOnPowerup_def
      machineRunning_def Let_def)

lemma run_Nil: "run ee boot [] = setup_fn boot (powerOn ee)"
  by (simp add: run_def)

lemma run_snoc: "run ee boot (inps @ [inp]) = loop inp (run ee boot inps)"
  by (simp add: run_def)

lemma run_one: "run ee boot [inp] = loop inp (run ee boot [])"
  using run_snoc [of ee boot "[]" inp] by simp

lemma run_two: "run ee boot [i1, i2] = loop i2 (run ee boot [i1])"
  using run_snoc [of ee boot "[i1]" i2] by simp

lemmas loop_eval = loop_def loop_timers_def loop_rfid_def presentFob_def timedOut_def
  machineRunning_def out_defs pin_defs Let_def idle_def adminFrame_def
  startupTimeout_def deniedTimeout_def addTagTimeout_def runningStopTimeout_def
  GOODBUZZTONE_def BADBUZZTONE_def SHORTBUZZ_def LONGBUZZ_def
  reverseBits_examples decodePacket_six packetFobId_six

lemma admin_entered_on_fullEeprom:
  "run fullEeprom idle [idle\<lparr>millis := 1000, adminButtonPin := False, rfidSerial := adminFrame\<rparr>]
   = \<lparr>systemStatus = STATUSADD, bootAdminMode = False, fobPresentMilli = 1000,
      runTimeMilli = 0, runningGraceMilli = 0, activeFobId = 0x009afb7f, eeprom = fullEeprom,
      ledGreenPin = True, ledRedPin = False, relayPin = False,
      effects = [SerialLog ''boot'' 0 0, Delay 150, Delay 150, Delay 150,
                 SerialLog ''admin'' 0x009afb7f 0, Tone 2000 150]\<rparr>"
  unfolding run_one run_Nil setup_idle
  by (simp add: loop_eval checkAdminTag_admin)

lemma session_until_machine_stop:
  "loop (idle\<lparr>millis := 60000\<rparr>)
     (loop (idle\<lparr>millis := 2000, runningPin := True\<rparr>)
       (loop (idle\<lparr>millis := 1000, rfidSerial := adminFrame\<rparr>)
         (setup_fn idle (powerOn freshEeprom))))
   = \<lparr>systemStatus = STATUSTURNOFF, bootAdminMode = False, fobPresentMilli = 1000,
      runTimeMilli = 2000, runningGraceMilli = 60000, activeFobId = 0x009afb7f,
      eeprom = freshEeprom, ledGreenPin = True, ledRedPin = False, relayPin = True,
      effects = [SerialLog ''boot'' 0 0, Delay 150, Delay 150, Delay 150,
                 Tone 2000 150, SerialLog ''login'' 0x009afb7f 0,
                 SerialLog ''start'' 0x009afb7f 0, SerialLog ''stop'' 0x009afb7f 58]\<rparr>"
  unfolding setup_idle
  by (simp add: loop_eval checkAdminTag_admin checkAuthTag_freshEeprom_admin statusAdmin_def)

subsection \<open>The same tag read again\<close>

lemma presentFob_again:
  assumes same: "adminButtonPin inp' = adminButtonPin inp"
  shows "presentFob inp' fobId (presentFob inp fobId st)
       = (presentFob inp fobId st)\<lparr>fobPresentMilli := millis inp'\<rparr>"
proof (cases "adminButtonPin inp = ADMINDOWN \<and> systemStatus st \<noteq> STATUSON
    \<and> systemStatus st \<noteq> STATUSTURNON")
  case True
  then have btn: "adminButtonPin inp = ADMINDOWN" "adminButtonPin inp' = ADMINDOWN"
    and run: "systemStatus st \<noteq> STATUSON" "systemStatus st \<noteq> STATUSTURNON"
    using same by simp_all
  show ?thesis
  proof (cases "checkAdminTag fobId = statusAdmin")
    case admin: True
    show ?thesis
    proof (cases "bootAdminMode st")
      case boot: True
      note first = presentFob_erase [OF btn(1) run admin boot]
      have "systemStatus (presentFob inp fobId st) = STATUSDEL"
        "activeFobId (presentFob inp fobId st) = fobId"
        "bootAdminMode (presentFob inp fobId st)"
        unfolding first using boot by auto
      then show ?thesis
        using presentFob_erase [of inp' "presentFob inp fobId st" fobId] btn(2) admin
        by simp
    next
      case noboot: False
      note first = presentFob_admin [OF btn(1) run admin noboot]
      have "systemStatus (presentFob inp fobId st) = STATUSADD"
        "activeFobId (presentFob inp fobId st) = fobId"
        "\<not> bootAdminMode (presentFob inp fobId st)"
        unfolding first using noboot by auto
      then show ?thesis
        using presentFob_admin [of inp' "presentFob inp fobId st" fobId] btn(2) admin
        by simp
    qed
  next
    case other: False
    show ?thesis
    proof (cases "systemStatus st = STATUSADD \<and> checkAuthTag (eeprom st) fobId = 0")
      case add: True
      then have first: "presentFob inp fobId st =
        st\<lparr>fobPresentMilli := millis inp, eeprom := fst (addAuthTag (eeprom st) fobId),
           systemStatus := (if snd (addAuthTag (eeprom st) fobId) \<noteq> 0 then STATUSADDED
                            else STATUSDEL),
           effects := effects st @ [SerialLog ''added'' fobId 0,
                 Tone GOODBUZZTONE SHORTBUZZ, Delay SHORTBUZZ, Tone GOODBUZZTONE SHORTBUZZ]\<rparr>"
        using btn(1) other by (intro presentFob_add) simp_all
      have "systemStatus (presentFob inp fobId st) \<noteq> STATUSON"
        "systemStatus (presentFob inp fobId st) \<noteq> STATUSTURNON"
        "systemStatus (presentFob inp fobId st) \<noteq> STATUSADD"
        unfolding first by simp_all
      then show ?thesis
        using btn(2) other by (intro presentFob_button_ignored) simp_all
    next
      case noadd: False
      then have c: "systemStatus st \<noteq> STATUSADD \<or> checkAuthTag (eeprom st) fobId \<noteq> 0"
        by simp
      note first = presentFob_button_ignored [OF btn(1) run other c]
      show ?thesis
        unfolding first using btn(2) run other c
        by (intro presentFob_button_ignored) simp_all
    qed
  qed
next
  case False
  then have np: "adminButtonPin inp \<noteq> ADMINDOWN \<or> systemStatus st = STATUSON
      \<or> systemStatus st = STATUSTURNON" by simp
  show ?thesis
  proof (cases "checkAuthTag (eeprom st) fobId \<noteq> 0 \<or> checkAdminTag fobId \<noteq> 0")
    case auth: True
    note first = presentFob_login [OF np auth]
    have on: "systemStatus (presentFob inp fobId st) = STATUSON
        \<or> systemStatus (presentFob inp fobId st) = STATUSTURNON"
      unfolding first by simp
    have ee: "eeprom (presentFob inp fobId st) = eeprom st"
      unfolding first by simp
    have leds: "ledGreenPin (presentFob inp fobId st)" "\<not> ledRedPin (presentFob inp fobId st)"
      "relayPin (presentFob inp fobId st) = RELAYON"
      unfolding first by simp_all
    have "presentFob inp' fobId (presentFob inp fobId st)
        = (presentFob inp fobId st)\<lparr>fobPresentMilli := millis inp', ledGreenPin := True,
            ledRedPin := False, relayPin := RELAYON\<rparr>"
      using presentFob_login [of inp' "presentFob inp fobId st" fobId] on auth ee
      by presburger
    also have "\<dots> = (presentFob inp fobId st)\<lparr>fobPresentMilli := millis inp'\<rparr>"
      using leds by simp
    finally show ?thesis .
  next
    case unauth: False
    then have u: "checkAuthTag (eeprom st) fobId = 0" "checkAdminTag fobId = 0"
      by simp_all
    then have notadmin: "checkAdminTag fobId \<noteq> statusAdmin"
      by (simp add: statusAdmin_def)
    show ?thesis
    proof (cases "systemStatus st = STATUSOFF \<or> systemStatus st = STATUSTURNON")
      case deny: True
      note first = presentFob_denied [OF np u deny]
      have st1: "systemStatus (presentFob inp fobId st) = STATUSDENIED"
        "eeprom (presentFob inp fobId st) = eeprom st"
        unfolding first by simp_all
      show ?thesis
      proof (cases "adminButtonPin inp' = ADMINDOWN")
        case True
        then show ?thesis
          using st1 u notadmin by (intro presentFob_button_ignored) simp_all
      next
        case False
        then show ?thesis
          using st1 u by (intro presentFob_unauthorized_ignored) simp_all
      qed
    next
      case nodeny: False
      then have s: "systemStatus st \<noteq> STATUSOFF" "systemStatus st \<noteq> STATUSTURNON"
        by simp_all
      note first = presentFob_unauthorized_ignored [OF np u s]
      from np s same have np': "adminButtonPin inp' \<noteq> ADMINDOWN \<or> systemStatus st = STATUSON"
        by simp
      show ?thesis
        unfolding first using np' u s
        by (intro presentFob_unauthorized_ignored) simp_all
    qed
  qed
qed

lemma presentFob_rereads:
  assumes "\<forall>i \<in> set inps. adminButtonPin i = adminButtonPin inp"
  shows "foldl (\<lambda>s i. presentFob i fobId s) (presentFob inp fobId st) inps
    = (if inps = [] then presentFob inp fobId st
       else (presentFob inp fobId st)\<lparr>fobPresentMilli := millis (last inps)\<rparr>)"
  using assms
proof (induction inps rule: rev_induct)
  case Nil
  show ?case by simp
next
  case (snoc x xs)
  then have x: "adminButtonPin x = adminButtonPin inp"
    and xs: "\<forall>i \<in> set xs. adminButtonPin i = adminButtonPin inp"
    by simp_all
  have again: "presentFob x fobId (presentFob inp fobId st)
      = (presentFob inp fobId st)\<lparr>fobPresentMilli := millis x\<rparr>"
    using x by (rule presentFob_again)
  show ?case
  proof (cases "xs = []")
    case True
    then show ?thesis by (simp add: again)
  next
    case False
    then show ?thesis
      using snoc.IH [OF xs] by (simp add: presentFob_time again)
  qed
qed

text \<open>
  C5. After a tag was handled once, handling the same tag again any number of times,
  with the admin button at the same level and nothing else in between, sends no tone and
  no log line, and leaves \<open>systemStatus\<close>, the EEPROM and the relay as the first
  handling left them. In particular an admin tag shown with the button held, in a state
  where it is a new presentation, gives exactly one line \<open>admin\<close> (one line \<open>deleted\<close>
  after a boot in admin mode) and one entry into \<open>STATUSADD\<close> (\<open>STATUSDEL\<close>), however
  often it is read.
\<close>

theorem rereads_have_no_further_effects:
  assumes "\<forall>i \<in> set inps. adminButtonPin i = adminButtonPin inp"
  shows "effects (foldl (\<lambda>s i. presentFob i fobId s) (presentFob inp fobId st) inps)
           = effects (presentFob inp fobId st)
    \<and> systemStatus (foldl (\<lambda>s i. presentFob i fobId s) (presentFob inp fobId st) inps)
           = systemStatus (presentFob inp fobId st)
    \<and> eeprom (foldl (\<lambda>s i. presentFob i fobId s) (presentFob inp fobId st) inps)
           = eeprom (presentFob inp fobId st)
    \<and> relayPin (foldl (\<lambda>s i. presentFob i fobId s) (presentFob inp fobId st) inps)
           = relayPin (presentFob inp fobId st)
    \<and> (adminButtonPin inp = ADMINDOWN \<and> systemStatus st \<noteq> STATUSON
         \<and> systemStatus st \<noteq> STATUSTURNON \<and> checkAdminTag fobId = statusAdmin
         \<and> \<not> bootAdminMode st \<and> (systemStatus st \<noteq> STATUSADD \<or> activeFobId st \<noteq> fobId)
        \<longrightarrow> effects (foldl (\<lambda>s i. presentFob i fobId s) (presentFob inp fobId st) inps)
              = effects st @ [SerialLog ''admin'' fobId 0, Tone GOODBUZZTONE SHORTBUZZ]
            \<and> systemStatus (foldl (\<lambda>s i. presentFob i fobId s) (presentFob inp fobId st) inps)
              = STATUSADD)
    \<and> (adminButtonPin inp = ADMINDOWN \<and> systemStatus st \<noteq> STATUSON
         \<and> systemStatus st \<noteq> STATUSTURNON \<and> checkAdminTag fobId = statusAdmin
         \<and> bootAdminMode st \<and> (systemStatus st \<noteq> STATUSDEL \<or> activeFobId st \<noteq> fobId)
        \<longrightarrow> effects (foldl (\<lambda>s i. presentFob i fobId s) (presentFob inp fobId st) inps)
              = effects st @ [SerialLog ''deleted'' fobId 0,
                   Tone GOODBUZZTONE SHORTBUZZ, Delay SHORTBUZZ,
                   Tone GOODBUZZTONE SHORTBUZZ, Delay SHORTBUZZ,
                   Tone GOODBUZZTONE SHORTBUZZ]
            \<and> systemStatus (foldl (\<lambda>s i. presentFob i fobId s) (presentFob inp fobId st) inps)
              = STATUSDEL)"
proof -
  let ?first = "presentFob inp fobId st"
  let ?last = "foldl (\<lambda>s i. presentFob i fobId s) ?first inps"
  note r = presentFob_rereads [OF assms, of fobId st]
  have same: "effects ?last = effects ?first" "systemStatus ?last = systemStatus ?first"
    "eeprom ?last = eeprom ?first" "relayPin ?last = relayPin ?first"
    unfolding r by simp_all
  have admin: "effects ?first = effects st @ [SerialLog ''admin'' fobId 0, Tone GOODBUZZTONE SHORTBUZZ]
      \<and> systemStatus ?first = STATUSADD"
    if "adminButtonPin inp = ADMINDOWN" "systemStatus st \<noteq> STATUSON"
      "systemStatus st \<noteq> STATUSTURNON" "checkAdminTag fobId = statusAdmin"
      "\<not> bootAdminMode st" "systemStatus st \<noteq> STATUSADD \<or> activeFobId st \<noteq> fobId"
    unfolding presentFob_admin [OF that(1-5)] using that(6) by simp
  have erase: "effects ?first = effects st @ [SerialLog ''deleted'' fobId 0,
                   Tone GOODBUZZTONE SHORTBUZZ, Delay SHORTBUZZ,
                   Tone GOODBUZZTONE SHORTBUZZ, Delay SHORTBUZZ,
                   Tone GOODBUZZTONE SHORTBUZZ]
      \<and> systemStatus ?first = STATUSDEL"
    if "adminButtonPin inp = ADMINDOWN" "systemStatus st \<noteq> STATUSON"
      "systemStatus st \<noteq> STATUSTURNON" "checkAdminTag fobId = statusAdmin"
      "bootAdminMode st" "systemStatus st \<noteq> STATUSDEL \<or> activeFobId st \<noteq> fobId"
    unfolding presentFob_erase [OF that(1-5)] using that(6) by simp
  show ?thesis
    unfolding same using admin erase by blast
qed

theorem rereads_have_no_further_effects_witness:
  "effects (foldl (\<lambda>s i. presentFob i 0x009afb7f s)
      (presentFob (idle\<lparr>adminButtonPin := False\<rparr>) 0x009afb7f (setup_fn idle (powerOn freshEeprom)))
      [idle\<lparr>millis := 100, adminButtonPin := False\<rparr>,
       idle\<lparr>millis := 200, adminButtonPin := False\<rparr>])
   = [SerialLog ''boot'' 0 0, Delay 150, Delay 150, Delay 150,
      SerialLog ''admin'' 0x009afb7f 0, Tone 2000 150]"
proof -
  let ?inp = "idle\<lparr>adminButtonPin := False\<rparr>"
  let ?inps = "[idle\<lparr>millis := 100, adminButtonPin := False\<rparr>,
       idle\<lparr>millis := 200, adminButtonPin := False\<rparr>]"
  let ?st = "setup_fn idle (powerOn freshEeprom)"
  have a: "\<forall>i \<in> set ?inps. adminButtonPin i = adminButtonPin ?inp"
    by simp
  have b: "adminButtonPin ?inp = ADMINDOWN \<and> systemStatus ?st \<noteq> STATUSON
         \<and> systemStatus ?st \<noteq> STATUSTURNON \<and> checkAdminTag 0x009afb7f = statusAdmin
         \<and> \<not> bootAdminMode ?st \<and> (systemStatus ?st \<noteq> STATUSADD \<or> activeFobId ?st \<noteq> 0x009afb7f)"
    by (simp add: setup_idle ADMINDOWN_def checkAdminTag_admin)
  from rereads_have_no_further_effects [OF a, of "0x009afb7f" ?st] b
  have "effects (foldl (\<lambda>s i. presentFob i 0x009afb7f s) (presentFob ?inp 0x009afb7f ?st) ?inps)
      = effects ?st @ [SerialLog ''admin'' 0x009afb7f 0, Tone GOODBUZZTONE SHORTBUZZ]"
    by blast
  then show ?thesis
    by (simp add: setup_idle GOODBUZZTONE_def SHORTBUZZ_def)
qed

text \<open>
  The same through \<open>loop()\<close>. \<open>presentFob\<close> reads neither LED pin, so its result is the
  same up to the LEDs when the first half of \<open>loop()\<close> has only blinked them. When each
  further run of \<open>loop()\<close> gets a frame of the same tag at the same button level, and its
  first half changes nothing but the LEDs, the state after all the runs is the state
  after the first handling, up to the LEDs and \<open>fobPresentMilli\<close>: no tone, no log line,
  no other state.
\<close>

lemma presentFob_leds:
  "presentFob inp fobId (st\<lparr>ledGreenPin := g, ledRedPin := r\<rparr>)
   = (presentFob inp fobId st)
       \<lparr>ledGreenPin := ledGreenPin (presentFob inp fobId (st\<lparr>ledGreenPin := g, ledRedPin := r\<rparr>)),
        ledRedPin := ledRedPin (presentFob inp fobId (st\<lparr>ledGreenPin := g, ledRedPin := r\<rparr>))\<rparr>"
  (is "presentFob inp fobId ?st' = _")
proof (cases "adminButtonPin inp = ADMINDOWN \<and> systemStatus st \<noteq> STATUSON
    \<and> systemStatus st \<noteq> STATUSTURNON")
  case True
  then have btn: "adminButtonPin inp = ADMINDOWN"
    and run: "systemStatus st \<noteq> STATUSON" "systemStatus st \<noteq> STATUSTURNON"
    and run': "systemStatus ?st' \<noteq> STATUSON" "systemStatus ?st' \<noteq> STATUSTURNON"
    by simp_all
  show ?thesis
  proof (cases "checkAdminTag fobId = statusAdmin")
    case admin: True
    show ?thesis
    proof (cases "bootAdminMode st")
      case boot: True
      then have boot': "bootAdminMode ?st'" by simp
      show ?thesis
        unfolding presentFob_erase [OF btn run admin boot]
          presentFob_erase [OF btn run' admin boot']
        by simp
    next
      case noboot: False
      then have noboot': "\<not> bootAdminMode ?st'" by simp
      show ?thesis
        unfolding presentFob_admin [OF btn run admin noboot]
          presentFob_admin [OF btn run' admin noboot']
        by simp
    qed
  next
    case other: False
    show ?thesis
    proof (cases "systemStatus st = STATUSADD \<and> checkAuthTag (eeprom st) fobId = 0")
      case add: True
      then have a: "systemStatus st = STATUSADD" "checkAuthTag (eeprom st) fobId = 0"
        and a': "systemStatus ?st' = STATUSADD" "checkAuthTag (eeprom ?st') fobId = 0"
        by simp_all
      show ?thesis
        unfolding presentFob_add [OF btn a(1) other a(2)]
          presentFob_add [OF btn a'(1) other a'(2)]
        by simp
    next
      case noadd: False
      then have c: "systemStatus st \<noteq> STATUSADD \<or> checkAuthTag (eeprom st) fobId \<noteq> 0"
        and c': "systemStatus ?st' \<noteq> STATUSADD \<or> checkAuthTag (eeprom ?st') fobId \<noteq> 0"
        by simp_all
      show ?thesis
        unfolding presentFob_button_ignored [OF btn run other c]
          presentFob_button_ignored [OF btn run' other c']
        by simp
    qed
  qed
next
  case False
  then have np: "adminButtonPin inp \<noteq> ADMINDOWN \<or> systemStatus st = STATUSON
      \<or> systemStatus st = STATUSTURNON"
    and np': "adminButtonPin inp \<noteq> ADMINDOWN \<or> systemStatus ?st' = STATUSON
      \<or> systemStatus ?st' = STATUSTURNON"
    by simp_all
  show ?thesis
  proof (cases "checkAuthTag (eeprom st) fobId \<noteq> 0 \<or> checkAdminTag fobId \<noteq> 0")
    case auth: True
    then have auth': "checkAuthTag (eeprom ?st') fobId \<noteq> 0 \<or> checkAdminTag fobId \<noteq> 0"
      by simp
    show ?thesis
      unfolding presentFob_login [OF np auth] presentFob_login [OF np' auth']
      by simp
  next
    case unauth: False
    then have u: "checkAuthTag (eeprom st) fobId = 0" "checkAdminTag fobId = 0"
      and u': "checkAuthTag (eeprom ?st') fobId = 0"
      by simp_all
    show ?thesis
    proof (cases "systemStatus st = STATUSOFF \<or> systemStatus st = STATUSTURNON")
      case deny: True
      then have deny': "systemStatus ?st' = STATUSOFF \<or> systemStatus ?st' = STATUSTURNON"
        by simp
      show ?thesis
        unfolding presentFob_denied [OF np u deny] presentFob_denied [OF np' u' u(2) deny']
        by simp
    next
      case nodeny: False
      then have s: "systemStatus st \<noteq> STATUSOFF" "systemStatus st \<noteq> STATUSTURNON"
        and s': "systemStatus ?st' \<noteq> STATUSOFF" "systemStatus ?st' \<noteq> STATUSTURNON"
        by simp_all
      show ?thesis
        unfolding presentFob_unauthorized_ignored [OF np u s]
          presentFob_unauthorized_ignored [OF np' u' u(2) s']
        by simp
    qed
  qed
qed

lemma blankLeds_eqD:
  assumes "blankLeds s' = blankLeds s"
  shows "s' = s\<lparr>ledGreenPin := ledGreenPin s', ledRedPin := ledRedPin s',
               fobPresentMilli := fobPresentMilli s'\<rparr>"
  using assms by (cases s; cases s') (simp add: blankLeds_def)

lemma blankLeds_presentFob:
  assumes "blankLeds s' = blankLeds s"
  shows "blankLeds (presentFob inp fobId s') = blankLeds (presentFob inp fobId s)"
proof -
  have "presentFob inp fobId s'
      = presentFob inp fobId (s\<lparr>ledGreenPin := ledGreenPin s', ledRedPin := ledRedPin s'\<rparr>)"
    by (subst blankLeds_eqD [OF assms]) (rule presentFob_time)
  also have "blankLeds \<dots> = blankLeds (presentFob inp fobId s)"
    by (subst presentFob_leds) (simp add: blankLeds_def)
  finally show ?thesis .
qed

lemma rereads_through_loop:
  assumes "\<forall>k < length inps.
      adminButtonPin (inps ! k) = adminButtonPin inp
      \<and> (\<exists>vals. rfidSerial (inps ! k) = Start vals
             \<and> decodePacket (readPacket vals []) = Some fobId)
      \<and> blankLeds (loop_timers (inps ! k)
            (foldl (\<lambda>s i. loop i s) (presentFob inp fobId st) (take k inps)))
          = blankLeds (foldl (\<lambda>s i. loop i s) (presentFob inp fobId st) (take k inps))"
  shows "blankLeds (foldl (\<lambda>s i. loop i s) (presentFob inp fobId st) inps)
    = blankLeds (presentFob inp fobId st)"
  using assms
proof (induction inps rule: rev_induct)
  case Nil
  show ?case by simp
next
  case (snoc x xs)
  let ?first = "presentFob inp fobId st"
  let ?before = "foldl (\<lambda>s i. loop i s) ?first xs"
  note at = snoc.prems [rule_format]
  have pre: "\<forall>k < length xs.
      adminButtonPin (xs ! k) = adminButtonPin inp
      \<and> (\<exists>vals. rfidSerial (xs ! k) = Start vals
             \<and> decodePacket (readPacket vals []) = Some fobId)
      \<and> blankLeds (loop_timers (xs ! k) (foldl (\<lambda>s i. loop i s) ?first (take k xs)))
          = blankLeds (foldl (\<lambda>s i. loop i s) ?first (take k xs))"
  proof (intro allI impI)
    fix k assume k: "k < length xs"
    then have "k < length (xs @ [x])" by simp
    from at [OF this] k
    show "adminButtonPin (xs ! k) = adminButtonPin inp
      \<and> (\<exists>vals. rfidSerial (xs ! k) = Start vals
             \<and> decodePacket (readPacket vals []) = Some fobId)
      \<and> blankLeds (loop_timers (xs ! k) (foldl (\<lambda>s i. loop i s) ?first (take k xs)))
          = blankLeds (foldl (\<lambda>s i. loop i s) ?first (take k xs))"
      by (simp add: nth_append)
  qed
  have before: "blankLeds ?before = blankLeds ?first"
    by (rule snoc.IH [OF pre])
  have "length xs < length (xs @ [x])" by simp
  from at [OF this]
  have btn: "adminButtonPin x = adminButtonPin inp"
    and frame: "\<exists>vals. rfidSerial x = Start vals
             \<and> decodePacket (readPacket vals []) = Some fobId"
    and quiet: "blankLeds (loop_timers x ?before) = blankLeds ?before"
    by simp_all
  from frame obtain vals where "rfidSerial x = Start vals"
    "decodePacket (readPacket vals []) = Some fobId" by blast
  then have "loop_rfid x (loop_timers x ?before) = presentFob x fobId (loop_timers x ?before)"
    by (simp add: loop_rfid_def)
  then have "loop x ?before = presentFob x fobId (loop_timers x ?before)"
    by (simp only: loop_def)
  moreover have "blankLeds (presentFob x fobId (loop_timers x ?before))
      = blankLeds (presentFob x fobId ?first)"
    using quiet before by (intro blankLeds_presentFob) simp
  moreover have "blankLeds (presentFob x fobId ?first) = blankLeds ?first"
    by (simp add: presentFob_again [OF btn] blankLeds_def)
  ultimately have "blankLeds (loop x ?before) = blankLeds ?first"
    by simp
  then show ?case by simp
qed

subsection \<open>A tag with a nonzero lookup result\<close>

text \<open>
  C10. On an EEPROM whose bytes are all \<open>0xFF\<close>, \<open>checkAuthTag\<close> returns \<open>0xFF\<close> for the
  tag \<open>0xFFFFFFFF\<close>. With the admin button not held, a tag whose lookup result is not 0
  switches the relay on and leaves the state \<open>STATUSON\<close> or \<open>STATUSTURNON\<close>; when the state
  was neither of them, the state becomes \<open>STATUSTURNON\<close>, the tag becomes the active fob,
  and one tone and the line \<open>login\<close> are sent.
\<close>

theorem nonzero_lookup_opens_session:
  "checkAuthTag freshEeprom 0xFFFFFFFF = 0xFF
   \<and> (adminButtonPin inp \<noteq> ADMINDOWN \<and> checkAuthTag (eeprom st) fobId \<noteq> 0 \<longrightarrow>
        relayPin (presentFob inp fobId st) = RELAYON
        \<and> (systemStatus (presentFob inp fobId st) = STATUSON
            \<or> systemStatus (presentFob inp fobId st) = STATUSTURNON)
        \<and> (systemStatus st \<noteq> STATUSON \<and> systemStatus st \<noteq> STATUSTURNON \<longrightarrow>
             systemStatus (presentFob inp fobId st) = STATUSTURNON
             \<and> activeFobId (presentFob inp fobId st) = fobId
             \<and> effects (presentFob inp fobId st)
                 = effects st @ [Tone GOODBUZZTONE SHORTBUZZ, SerialLog ''login'' fobId 0]))"
proof (intro conjI impI)
  show "checkAuthTag freshEeprom 0xFFFFFFFF = 0xFF"
    by (rule checkAuthTag_freshEeprom_ones)
next
  assume a: "adminButtonPin inp \<noteq> ADMINDOWN \<and> checkAuthTag (eeprom st) fobId \<noteq> 0"
  then have "adminButtonPin inp \<noteq> ADMINDOWN \<or> systemStatus st = STATUSON
      \<or> systemStatus st = STATUSTURNON"
    and "checkAuthTag (eeprom st) fobId \<noteq> 0 \<or> checkAdminTag fobId \<noteq> 0"
    by simp_all
  note p = presentFob_login [OF this]
  show "relayPin (presentFob inp fobId st) = RELAYON"
    unfolding p by simp
  show "systemStatus (presentFob inp fobId st) = STATUSON
      \<or> systemStatus (presentFob inp fobId st) = STATUSTURNON"
    unfolding p by simp
  assume b: "systemStatus st \<noteq> STATUSON \<and> systemStatus st \<noteq> STATUSTURNON"
  show "systemStatus (presentFob inp fobId st) = STATUSTURNON"
    unfolding p using b by simp
  show "activeFobId (presentFob inp fobId st) = fobId"
    unfolding p using b by simp
  show "effects (presentFob inp fobId st)
      = effects st @ [Tone GOODBUZZTONE SHORTBUZZ, SerialLog ''login'' fobId 0]"
    unfolding p using b by simp
qed

theorem nonzero_lookup_opens_session_witness:
  "relayPin (run freshEeprom idle
       [idle\<lparr>millis := 1000, rfidSerial := Start [0x00, 0xFF, 0xFF, 0xFF, 0xFF, 0x00]\<rparr>])
     = RELAYON
   \<and> systemStatus (run freshEeprom idle
       [idle\<lparr>millis := 1000, rfidSerial := Start [0x00, 0xFF, 0xFF, 0xFF, 0xFF, 0x00]\<rparr>])
     = STATUSTURNON
   \<and> activeFobId (run freshEeprom idle
       [idle\<lparr>millis := 1000, rfidSerial := Start [0x00, 0xFF, 0xFF, 0xFF, 0xFF, 0x00]\<rparr>])
     = 0xFFFFFFFF"
proof -
  let ?inp = "idle\<lparr>millis := 1000, rfidSerial := Start [0x00, 0xFF, 0xFF, 0xFF, 0xFF, 0x00]\<rparr>"
  let ?st = "setup_fn idle (powerOn freshEeprom)"
  have timers: "loop_timers ?inp ?st = ?st"
    by (rule loop_timers_off) (simp_all add: setup_idle)
  have "loop_rfid ?inp ?st = presentFob ?inp 0xFFFFFFFF ?st"
    by (rule loop_rfid_frame [OF _ decode_ones]) simp
  with timers have run: "run freshEeprom idle [?inp] = presentFob ?inp 0xFFFFFFFF ?st"
    by (simp add: run_def loop_def)
  note inst = nonzero_lookup_opens_session [of ?inp ?st "0xFFFFFFFF"]
  from inst have lookup: "checkAuthTag freshEeprom 0xFFFFFFFF = 0xFF"
    by blast
  have "adminButtonPin ?inp \<noteq> ADMINDOWN"
    by (simp add: idle_def ADMINDOWN_def)
  moreover have "checkAuthTag (eeprom ?st) 0xFFFFFFFF \<noteq> 0"
    by (simp add: setup_idle lookup)
  ultimately
  have pre: "adminButtonPin ?inp \<noteq> ADMINDOWN \<and> checkAuthTag (eeprom ?st) 0xFFFFFFFF \<noteq> 0"
    by simp
  have off: "systemStatus ?st \<noteq> STATUSON \<and> systemStatus ?st \<noteq> STATUSTURNON"
    by (simp add: setup_idle)
  from inst pre off show ?thesis
    unfolding run by blast
qed

subsection \<open>A new tag shown when the store is full\<close>

text \<open>
  C6. The state is \<open>STATUSADD\<close>, the admin button is held, the tag shown is not an
  admin tag and its lookup gives 0, and no slot of the store is free (\<open>slotFree\<close>, the
  test of \<open>addAuthTag\<close>). Then \<open>addAuthTag\<close> returns 0 and leaves the EEPROM as it is,
  the state becomes \<open>STATUSDEL\<close>, and the line \<open>added\<close> is sent all the same, with the
  two tones.
\<close>

theorem add_to_full_store_still_logs_added:
  assumes "adminButtonPin inp = ADMINDOWN" "systemStatus st = STATUSADD"
    and "checkAdminTag fobId \<noteq> statusAdmin" "checkAuthTag (eeprom st) fobId = 0"
    and "\<forall>k. k < numSlots \<longrightarrow> \<not> slotFree (eeprom st) k"
  shows "addAuthTag (eeprom st) fobId = (eeprom st, 0)
    \<and> systemStatus (presentFob inp fobId st) = STATUSDEL
    \<and> eeprom (presentFob inp fobId st) = eeprom st
    \<and> effects (presentFob inp fobId st)
        = effects st @ [SerialLog ''added'' fobId 0,
             Tone GOODBUZZTONE SHORTBUZZ, Delay SHORTBUZZ, Tone GOODBUZZTONE SHORTBUZZ]"
proof -
  have full: "addAuthTag (eeprom st) fobId = (eeprom st, 0)"
    using assms(5) by (rule addAuthTag_full)
  show ?thesis
    unfolding presentFob_add [OF assms(1-4)] full by simp
qed

theorem add_to_full_store_still_logs_added_witness:
  "systemStatus (run fullEeprom idle
      [idle\<lparr>millis := 1000, adminButtonPin := False, rfidSerial := adminFrame\<rparr>,
       idle\<lparr>millis := 2000, adminButtonPin := False,
            rfidSerial := Start [0x00, 0x88, 0x88, 0x88, 0x88, 0x00]\<rparr>]) = STATUSDEL
   \<and> effects (run fullEeprom idle
      [idle\<lparr>millis := 1000, adminButtonPin := False, rfidSerial := adminFrame\<rparr>,
       idle\<lparr>millis := 2000, adminButtonPin := False,
            rfidSerial := Start [0x00, 0x88, 0x88, 0x88, 0x88, 0x00]\<rparr>])
     = [SerialLog ''boot'' 0 0, Delay 150, Delay 150, Delay 150,
        SerialLog ''admin'' 0x009afb7f 0, Tone 2000 150,
        SerialLog ''added'' 0x11111111 0, Tone 2000 150, Delay 150, Tone 2000 150]
   \<and> eeprom (run fullEeprom idle
      [idle\<lparr>millis := 1000, adminButtonPin := False, rfidSerial := adminFrame\<rparr>,
       idle\<lparr>millis := 2000, adminButtonPin := False,
            rfidSerial := Start [0x00, 0x88, 0x88, 0x88, 0x88, 0x00]\<rparr>]) = fullEeprom"
proof -
  let ?i2 = "idle\<lparr>millis := 2000, adminButtonPin := False,
            rfidSerial := Start [0x00, 0x88, 0x88, 0x88, 0x88, 0x00]\<rparr>"
  let ?s1 = "\<lparr>systemStatus = STATUSADD, bootAdminMode = False, fobPresentMilli = 1000,
      runTimeMilli = 0, runningGraceMilli = 0, activeFobId = 0x009afb7f, eeprom = fullEeprom,
      ledGreenPin = True, ledRedPin = False, relayPin = False,
      effects = [SerialLog ''boot'' 0 0, Delay 150, Delay 150, Delay 150,
                 SerialLog ''admin'' 0x009afb7f 0, Tone 2000 150]\<rparr>"
  have timers: "loop_timers ?i2 ?s1 = ?s1"
    by (simp add: loop_timers_def timedOut_def idle_def addTagTimeout_def pin_defs out_defs)
  have "loop_rfid ?i2 ?s1 = presentFob ?i2 0x11111111 ?s1"
    by (rule loop_rfid_frame [OF _ decode_tag1]) simp
  with timers have run: "run fullEeprom idle
      [idle\<lparr>millis := 1000, adminButtonPin := False, rfidSerial := adminFrame\<rparr>, ?i2]
      = presentFob ?i2 0x11111111 ?s1"
    unfolding run_two admin_entered_on_fullEeprom by (simp add: loop_def)
  have "adminButtonPin ?i2 = ADMINDOWN" "systemStatus ?s1 = STATUSADD"
    "checkAdminTag 0x11111111 \<noteq> statusAdmin" "checkAuthTag (eeprom ?s1) 0x11111111 = 0"
    "\<forall>k. k < numSlots \<longrightarrow> \<not> slotFree (eeprom ?s1) k"
    by (simp_all add: idle_def ADMINDOWN_def checkAdminTag_eq statusAdmin_def
        checkAuthTag_fullEeprom fullEeprom_full)
  from add_to_full_store_still_logs_added [OF this] show ?thesis
    unfolding run by (simp add: GOODBUZZTONE_def SHORTBUZZ_def)
qed

section \<open>Properties of the control loop\<close>

subsection \<open>The relay in the state \<open>STATUSOFF\<close>\<close>

text \<open>
  C1, at a failing input. In the state \<open>STATUSTURNOFF\<close> the relay is still on. An admin
  tag shown with the admin button held, before the grace time is over, takes the sketch
  to \<open>STATUSADD\<close>; when the button is released or \<open>addTagTimeout\<close> passes, the sketch
  goes to \<open>STATUSOFF\<close>, writing the two LED pins only: the state is \<open>STATUSOFF\<close> and the
  relay is on.
\<close>

theorem cancelled_add_leaves_relay_on:
  assumes st: "systemStatus st = STATUSTURNOFF" "relayPin st = RELAYON" "\<not> bootAdminMode st"
    and i1: "adminButtonPin i1 = ADMINDOWN" "\<not> machineRunning i1"
      "\<not> timedOut i1 (runningGraceMilli st) runningStopTimeout"
    and frame: "rfidSerial i1 = Start vals" "decodePacket (readPacket vals []) = Some fobId"
      "checkAdminTag fobId = statusAdmin"
    and i2: "adminButtonPin i2 \<noteq> ADMINDOWN \<or> timedOut i2 (millis i1) addTagTimeout"
      "rfidSerial i2 = NoData"
  shows "systemStatus (loop i1 st) = STATUSADD \<and> relayPin (loop i1 st) = RELAYON
    \<and> systemStatus (loop i2 (loop i1 st)) = STATUSOFF
    \<and> relayPin (loop i2 (loop i1 st)) = RELAYON"
proof -
  have t1: "loop_timers i1 st = st"
    using st i1 by (simp add: loop_timers_def)
  have "loop i1 st = presentFob i1 fobId st"
    unfolding loop_def t1 using frame(1,2) by (rule loop_rfid_frame)
  also have "\<dots> = st\<lparr>fobPresentMilli := millis i1, systemStatus := STATUSADD,
       effects := effects st @ [SerialLog ''admin'' fobId 0, Tone GOODBUZZTONE SHORTBUZZ],
       ledGreenPin := True, ledRedPin := False, activeFobId := fobId\<rparr>"
    using presentFob_admin [of i1 st fobId] i1(1) st(1,3) frame(3) by simp
  finally have l1: "loop i1 st = st\<lparr>fobPresentMilli := millis i1, systemStatus := STATUSADD,
       effects := effects st @ [SerialLog ''admin'' fobId 0, Tone GOODBUZZTONE SHORTBUZZ],
       ledGreenPin := True, ledRedPin := False, activeFobId := fobId\<rparr>" .
  have t2: "loop_timers i2 (loop i1 st) = setLeds False False ((loop i1 st)\<lparr>systemStatus := STATUSOFF\<rparr>)"
  proof (cases "timedOut i2 (millis i1) addTagTimeout")
    case True
    then show ?thesis unfolding l1 by (simp add: loop_timers_def)
  next
    case False
    with i2(1) have "adminButtonPin i2 \<noteq> ADMINDOWN" by simp
    with False show ?thesis unfolding l1 by (simp add: loop_timers_def)
  qed
  have l2: "loop i2 (loop i1 st) = setLeds False False ((loop i1 st)\<lparr>systemStatus := STATUSOFF\<rparr>)"
    unfolding loop_def [of i2] t2 using i2(2) by (rule loop_rfid_nodata)
  show ?thesis
    unfolding l2 unfolding l1 using st(2) by (simp add: setLeds_def)
qed

theorem cancelled_add_leaves_relay_on_witness:
  "systemStatus (run freshEeprom idle
      [idle\<lparr>millis := 1000, rfidSerial := adminFrame\<rparr>,
       idle\<lparr>millis := 2000, runningPin := True\<rparr>,
       idle\<lparr>millis := 60000\<rparr>,
       idle\<lparr>millis := 61000, adminButtonPin := False, rfidSerial := adminFrame\<rparr>,
       idle\<lparr>millis := 61500\<rparr>]) = STATUSOFF
   \<and> relayPin (run freshEeprom idle
      [idle\<lparr>millis := 1000, rfidSerial := adminFrame\<rparr>,
       idle\<lparr>millis := 2000, runningPin := True\<rparr>,
       idle\<lparr>millis := 60000\<rparr>,
       idle\<lparr>millis := 61000, adminButtonPin := False, rfidSerial := adminFrame\<rparr>,
       idle\<lparr>millis := 61500\<rparr>]) = RELAYON"
proof -
  let ?i1 = "idle\<lparr>millis := 61000, adminButtonPin := False, rfidSerial := adminFrame\<rparr>"
  let ?i2 = "idle\<lparr>millis := 61500\<rparr>"
  let ?st = "\<lparr>systemStatus = STATUSTURNOFF, bootAdminMode = False, fobPresentMilli = 1000,
      runTimeMilli = 2000, runningGraceMilli = 60000, activeFobId = 0x009afb7f,
      eeprom = freshEeprom, ledGreenPin = True, ledRedPin = False, relayPin = True,
      effects = [SerialLog ''boot'' 0 0, Delay 150, Delay 150, Delay 150,
                 Tone 2000 150, SerialLog ''login'' 0x009afb7f 0,
                 SerialLog ''start'' 0x009afb7f 0, SerialLog ''stop'' 0x009afb7f 58]\<rparr>"
  have run: "run freshEeprom idle
      [idle\<lparr>millis := 1000, rfidSerial := adminFrame\<rparr>,
       idle\<lparr>millis := 2000, runningPin := True\<rparr>,
       idle\<lparr>millis := 60000\<rparr>, ?i1, ?i2] = loop ?i2 (loop ?i1 ?st)"
    unfolding session_until_machine_stop [symmetric] by (simp add: run_def)
  have "systemStatus ?st = STATUSTURNOFF" "relayPin ?st = RELAYON" "\<not> bootAdminMode ?st"
    "adminButtonPin ?i1 = ADMINDOWN" "\<not> machineRunning ?i1"
    "\<not> timedOut ?i1 (runningGraceMilli ?st) runningStopTimeout"
    "rfidSerial ?i1 = Start [0x0D, 0x00, 0x59, 0xDF, 0xFE, 0x75]"
    "decodePacket (readPacket [0x0D, 0x00, 0x59, 0xDF, 0xFE, 0x75] []) = Some 0x009afb7f"
    "checkAdminTag 0x009afb7f = statusAdmin"
    "adminButtonPin ?i2 \<noteq> ADMINDOWN \<or> timedOut ?i2 (millis ?i1) addTagTimeout"
    "rfidSerial ?i2 = NoData"
    by (simp_all add: idle_def adminFrame_def pin_defs machineRunning_def timedOut_def
        runningStopTimeout_def decode_adminFrame checkAdminTag_admin del: readPacket.simps)
  from cancelled_add_leaves_relay_on [OF this] show ?thesis
    unfolding run by simp
qed

subsection \<open>The timeout tests when \<open>millis()\<close> is about to wrap around\<close>

lemma timedOut_without_wraparound:
  assumes "unat marker + unat timeout < 2 ^ 32" "marker \<le> millis inp"
  shows "timedOut inp marker timeout = (millis inp - marker > timeout)"
proof -
  have sum: "unat (marker + timeout) = unat marker + unat timeout"
    using assms(1) by (simp add: unat_word_ariths)
  have diff: "unat (millis inp - marker) = unat (millis inp) - unat marker"
    using assms(2) by (simp add: unat_sub)
  have le: "unat marker \<le> unat (millis inp)"
    using assms(2) by (simp add: word_le_nat_alt)
  show ?thesis
    unfolding timedOut_def word_less_nat_alt sum diff using le by arith
qed

lemma wrapped_sum_less:
  fixes marker timeout :: "32 word"
  assumes "2 ^ 32 \<le> unat marker + unat timeout"
  shows "marker + timeout < marker"
proof -
  have m: "unat marker < 2 ^ 32" and t: "unat timeout < 2 ^ 32"
    using unsigned_less [of marker] unsigned_less [of timeout] by simp_all
  have "unat (marker + timeout) = (unat marker + unat timeout) mod 2 ^ 32"
    by (simp add: unat_word_ariths)
  also have "\<dots> = unat marker + unat timeout - 2 ^ 32"
    using assms m t by (simp add: mod_if)
  also have "\<dots> < unat marker"
    using assms t by simp
  finally show ?thesis
    by (simp add: word_less_nat_alt)
qed

text \<open>
  C9, at a failing input. When \<open>marker + timeout\<close> passes \<open>2 ^ 32\<close>, the sum wraps
  around to a small value, and the test \<open>millis() > marker + timeout\<close> holds for every
  \<open>millis()\<close> from \<open>marker\<close> up to the wrap-around of \<open>millis()\<close> itself, also when no time
  at all has passed since the marker. For the grace time this ends the session at once:
  the sketch goes from \<open>STATUSTURNOFF\<close> to \<open>STATUSOFF\<close> and logs \<open>logout\<close>.
\<close>

theorem timeout_fires_at_once_before_wraparound:
  assumes "2 ^ 32 \<le> unat marker + unat timeout" "marker \<le> millis inp"
  shows "timedOut inp marker timeout
    \<and> (systemStatus st = STATUSTURNOFF \<and> \<not> machineRunning inp
         \<and> runningGraceMilli st = marker \<and> timeout = runningStopTimeout
        \<longrightarrow> systemStatus (loop_timers inp st) = STATUSOFF
            \<and> effects (loop_timers inp st)
                = effects st @ [SerialLog ''logout'' (activeFobId st)
                                  ((millis inp - runTimeMilli st) div 1000),
                                Tone BADBUZZTONE LONGBUZZ])"
proof -
  have "marker + timeout < marker"
    using assms(1) by (rule wrapped_sum_less)
  with assms(2) have fires: "timedOut inp marker timeout"
    by (simp add: timedOut_def)
  have "systemStatus (loop_timers inp st) = STATUSOFF
      \<and> effects (loop_timers inp st)
          = effects st @ [SerialLog ''logout'' (activeFobId st)
                            ((millis inp - runTimeMilli st) div 1000),
                          Tone BADBUZZTONE LONGBUZZ]"
    if "systemStatus st = STATUSTURNOFF" "\<not> machineRunning inp"
      "runningGraceMilli st = marker" "timeout = runningStopTimeout"
    using that fires by (simp add: loop_timers_def out_defs)
  with fires show ?thesis by blast
qed

theorem timeout_fires_at_once_before_wraparound_witness:
  "effects (run freshEeprom idle
      [idle\<lparr>millis := 0xFFFFF000, rfidSerial := adminFrame\<rparr>,
       idle\<lparr>millis := 0xFFFFF100, runningPin := True\<rparr>,
       idle\<lparr>millis := 0xFFFFFC18\<rparr>,
       idle\<lparr>millis := 0xFFFFFE0C\<rparr>])
     = [SerialLog ''boot'' 0 0, Delay 150, Delay 150, Delay 150,
        Tone 2000 150, SerialLog ''login'' 0x009afb7f 0,
        SerialLog ''start'' 0x009afb7f 0, SerialLog ''stop'' 0x009afb7f 2,
        SerialLog ''logout'' 0x009afb7f 3, Tone 1000 500]
   \<and> (0xFFFFFE0C :: 32 word) - 0xFFFFFC18 = 500
   \<and> (500 :: 32 word) \<le> runningStopTimeout"
proof -
  let ?inp = "idle\<lparr>millis := 0xFFFFFE0C\<rparr>"
  let ?st = "\<lparr>systemStatus = STATUSTURNOFF, bootAdminMode = False, fobPresentMilli = 0xFFFFF000,
      runTimeMilli = 0xFFFFF100, runningGraceMilli = 0xFFFFFC18, activeFobId = 0x009afb7f,
      eeprom = freshEeprom, ledGreenPin = True, ledRedPin = False, relayPin = True,
      effects = [SerialLog ''boot'' 0 0, Delay 150, Delay 150, Delay 150,
                 Tone 2000 150, SerialLog ''login'' 0x009afb7f 0,
                 SerialLog ''start'' 0x009afb7f 0, SerialLog ''stop'' 0x009afb7f 2]\<rparr>"
  have before: "loop (idle\<lparr>millis := 0xFFFFFC18\<rparr>)
     (loop (idle\<lparr>millis := 0xFFFFF100, runningPin := True\<rparr>)
       (loop (idle\<lparr>millis := 0xFFFFF000, rfidSerial := adminFrame\<rparr>)
         (setup_fn idle (powerOn freshEeprom)))) = ?st"
    unfolding setup_idle
    by (simp add: loop_eval checkAdminTag_admin checkAuthTag_freshEeprom_admin statusAdmin_def)
  have "loop ?inp ?st = loop_timers ?inp ?st"
    unfolding loop_def by (rule loop_rfid_nodata) (simp add: idle_def)
  then have run: "run freshEeprom idle
      [idle\<lparr>millis := 0xFFFFF000, rfidSerial := adminFrame\<rparr>,
       idle\<lparr>millis := 0xFFFFF100, runningPin := True\<rparr>,
       idle\<lparr>millis := 0xFFFFFC18\<rparr>, ?inp] = loop_timers ?inp ?st"
    unfolding before [symmetric] by (simp add: run_def)
  have a: "2 ^ 32 \<le> unat (0xFFFFFC18 :: 32 word) + unat runningStopTimeout"
    by (simp add: runningStopTimeout_def)
  have b: "(0xFFFFFC18 :: 32 word) \<le> millis ?inp"
    by (simp add: idle_def)
  have c: "systemStatus ?st = STATUSTURNOFF \<and> \<not> machineRunning ?inp
         \<and> runningGraceMilli ?st = 0xFFFFFC18 \<and> runningStopTimeout = runningStopTimeout"
    by (simp add: idle_def machineRunning_def pin_defs)
  from timeout_fires_at_once_before_wraparound [OF a b, of ?st] c
  have "effects (loop_timers ?inp ?st)
      = effects ?st @ [SerialLog ''logout'' (activeFobId ?st)
                         ((millis ?inp - runTimeMilli ?st) div 1000),
                       Tone BADBUZZTONE LONGBUZZ]"
    by blast
  then show ?thesis
    unfolding run
    by (simp add: idle_def BADBUZZTONE_def LONGBUZZ_def runningStopTimeout_def)
qed

end
